theory Spec2Isabelle
  imports Main "HOL-Library.Word"
begin

section \<open>The data of the interpreter\<close>

text \<open>
  This theory embeds \<^verbatim>\<open>execute_brainfuck\<close> of \<^verbatim>\<open>sourcecode.c\<close>. A tape cell is an
  \<^verbatim>\<open>unsigned char\<close>, an 8-bit word. The indices \<^verbatim>\<open>pc\<close>, \<^verbatim>\<open>stack_pos\<close>,
  \<^verbatim>\<open>input_pos\<close>, \<^verbatim>\<open>input_size\<close> and \<^verbatim>\<open>nest_level\<close> are \<^verbatim>\<open>size_t\<close> values that are
  bounded by the length of a string or buffer held in memory, so they cannot wrap and
  are natural numbers here. The data pointer \<^verbatim>\<open>ptr\<close> is the offset \<^verbatim>\<open>ptr - memory\<close>.
  The tape has at least one cell in every run that \<^verbatim>\<open>main\<close> starts (a size of 0 is
  replaced by the default), and the pointer arithmetic \<^verbatim>\<open>memory + memory_size - 1\<close> of
  the source is meaningful only then; facts that depend on it assume \<open>1 \<le> memory_size\<close>.
  Standard input and output are modelled at the level of the C streams, behind any
  translation of line ends by the runtime.
\<close>

type_synonym u8 = "8 word"

record BrainfuckConfig =
  wrap_memory :: bool
  debug_mode :: bool
  memory_size :: nat
  eof_behavior :: bool

definition DEFAULT_MEMORY_SIZE :: nat where
  "DEFAULT_MEMORY_SIZE = 30000"

definition MAX_NESTED_LOOPS :: nat where
  "MAX_NESTED_LOOPS = 1000"

definition INPUT_BUFFER_SIZE :: nat where
  "INPUT_BUFFER_SIZE = 4096"

text \<open>The configuration that \<^verbatim>\<open>main\<close> builds when no option is given.\<close>

definition default_config :: BrainfuckConfig where
  "default_config =
     \<lparr>wrap_memory = False, debug_mode = False,
      memory_size = DEFAULT_MEMORY_SIZE, eof_behavior = False\<rparr>"

text \<open>
  What the engine writes to standard output, in order: a byte of \<^verbatim>\<open>putchar\<close>, the
  prompt \<^verbatim>\<open>"\nInput: "\<close> of an interactive refill, or one dump of
  \<^verbatim>\<open>print_debug_state\<close> (program counter, instruction, first and last index of the
  window, and the cells of the window, the pointed one marked).
\<close>

datatype event =
  PutChar u8
  | Prompt
  | DebugState nat char nat nat "(bool \<times> u8) list"

text \<open>The messages on standard error. All but \<open>UnclosedLoops\<close> are followed by a return.\<close>

datatype diagnostic =
  AllocationFailure
  | AllocationFailureLoopStack
  | OutOfBounds nat
  | UnmatchedOpen nat
  | LoopStackOverflow
  | UnmatchedClose nat
  | UnclosedLoops nat

text \<open>
  The local variables of \<^verbatim>\<open>execute_brainfuck\<close> together with the two standard streams.
  \<open>loop_stack\<close> holds the live entries \<^verbatim>\<open>loop_stack[0 .. stack_pos - 1]\<close>, the most
  recent first, so \<^verbatim>\<open>stack_pos\<close> is its length and \<^verbatim>\<open>loop_stack[stack_pos - 1]\<close> its
  head; the entries above \<^verbatim>\<open>stack_pos\<close> are never read. \<open>input_buffer\<close> holds the
  string that the last successful \<^verbatim>\<open>fgets\<close> stored, terminator included; the bytes of
  the array behind the terminator are never read. \<open>stdin\<close> is what is left to read
  of standard input, \<open>stdout\<close> what has been written so far.
\<close>

record state =
  memory :: "u8 list"
  ptr :: nat
  pc :: nat
  loop_stack :: "nat list"
  input_buffer :: "u8 list"
  input_pos :: nat
  input_size :: nat
  stdin :: "u8 list"
  stdout :: "event list"

text \<open>The host: whether the two allocations succeed, whether standard input is a
  terminal, and the bytes that standard input delivers before its end.\<close>

record host =
  calloc_ok :: bool
  malloc_ok :: bool
  isatty_stdin :: bool
  stdin_bytes :: "u8 list"

datatype outcome =
  NoRun diagnostic
  | Halt diagnostic state
  | Exit "diagnostic option" state

text \<open>The bytes written by \<^verbatim>\<open>.\<close>, without prompts and debug dumps.\<close>

fun program_output :: "event list \<Rightarrow> u8 list" where
  "program_output [] = []"
| "program_output (PutChar b # es) = b # program_output es"
| "program_output (e # es) = program_output es"

section \<open>The C library functions the engine calls\<close>

text \<open>
  \<^verbatim>\<open>strlen\<close>: the number of bytes before the first NUL.
\<close>

definition strlen :: "u8 list \<Rightarrow> nat" where
  "strlen buf = length (takeWhile (\<lambda>b. b \<noteq> 0) buf)"

text \<open>
  \<^verbatim>\<open>fgets(buf, n, stdin)\<close>: reads at most \<open>n - 1\<close> bytes, stops behind a newline
  (byte 10) or at the end of the stream, and stores them followed by a NUL. It returns
  \<^verbatim>\<open>NULL\<close> when the stream ends before any byte is read. \<open>read_line k\<close> is the
  sequence of bytes read with room for \<open>k\<close>.
\<close>

fun read_line :: "nat \<Rightarrow> u8 list \<Rightarrow> u8 list" where
  "read_line k [] = []"
| "read_line k (x # xs) =
     (if k = 0 then [] else if x = 10 then [x] else x # read_line (k - 1) xs)"

definition fgets :: "nat \<Rightarrow> u8 list \<Rightarrow> (u8 list \<times> u8 list) option" where
  "fgets n inp =
     (if inp = [] then None
      else let line = read_line (n - 1) inp
           in Some (line @ [0], drop (length line) inp))"

section \<open>The engine\<close>

definition print_debug_state :: "u8 list \<Rightarrow> nat \<Rightarrow> nat \<Rightarrow> nat \<Rightarrow> char \<Rightarrow> event" where
  "print_debug_state mem p msize pcv instruction =
     (let context = 10;
          ptr_pos = p;
          start = (if ptr_pos > context then ptr_pos - context else 0);
          endv = (if ptr_pos + context < msize then ptr_pos + context else msize - 1)
      in DebugState pcv instruction start endv
           (map (\<lambda>i. (i = ptr_pos, mem ! i)) [start ..< endv + 1]))"

text \<open>The body of each \<^verbatim>\<open>case\<close> of the \<^verbatim>\<open>switch\<close>. An error return is \<open>Inl\<close> with the
  message and the state at that moment.\<close>

definition op_right :: "BrainfuckConfig \<Rightarrow> state \<Rightarrow> (diagnostic \<times> state) + state" where
  "op_right config s =
     (if wrap_memory config then
        Inr (s\<lparr>ptr := (if ptr s = memory_size config - 1 then 0 else ptr s + 1)\<rparr>)
      else if ptr s < memory_size config - 1 then
        Inr (s\<lparr>ptr := ptr s + 1\<rparr>)
      else Inl (OutOfBounds (pc s), s))"

definition op_left :: "BrainfuckConfig \<Rightarrow> state \<Rightarrow> (diagnostic \<times> state) + state" where
  "op_left config s =
     (if wrap_memory config then
        Inr (s\<lparr>ptr := (if ptr s = 0 then memory_size config - 1 else ptr s - 1)\<rparr>)
      else if ptr s > 0 then
        Inr (s\<lparr>ptr := ptr s - 1\<rparr>)
      else Inl (OutOfBounds (pc s), s))"

definition op_inc :: "state \<Rightarrow> state" where
  "op_inc s = s\<lparr>memory := (memory s)[ptr s := memory s ! ptr s + 1]\<rparr>"

definition op_dec :: "state \<Rightarrow> state" where
  "op_dec s = s\<lparr>memory := (memory s)[ptr s := memory s ! ptr s - 1]\<rparr>"

definition op_output :: "state \<Rightarrow> state" where
  "op_output s = s\<lparr>stdout := stdout s @ [PutChar (memory s ! ptr s)]\<rparr>"

text \<open>The refill of the input buffer, the first half of \<^verbatim>\<open>case ','\<close>.\<close>

definition refill :: "bool \<Rightarrow> state \<Rightarrow> state" where
  "refill tty s =
     (if input_pos s \<ge> input_size s then
        (let s1 = s\<lparr>input_size := 0, input_pos := 0\<rparr>;
             s2 = (if tty then s1\<lparr>stdout := stdout s1 @ [Prompt]\<rparr> else s1)
         in case fgets INPUT_BUFFER_SIZE (stdin s2) of
              Some (buf, rest) \<Rightarrow>
                s2\<lparr>input_buffer := buf, stdin := rest, input_size := strlen buf\<rparr>
            | None \<Rightarrow> s2)
      else s)"

definition op_input :: "BrainfuckConfig \<Rightarrow> bool \<Rightarrow> state \<Rightarrow> state" where
  "op_input config tty s =
     (let s1 = refill tty s in
      if input_pos s1 < input_size s1 then
        s1\<lparr>memory := (memory s1)[ptr s1 := input_buffer s1 ! input_pos s1],
           input_pos := input_pos s1 + 1\<rparr>
      else if eof_behavior config then
        s1\<lparr>memory := (memory s1)[ptr s1 := 0]\<rparr>
      else s1)"

text \<open>The inner \<^verbatim>\<open>while (nest_level > 0)\<close> of \<^verbatim>\<open>case '['\<close>: \<open>Inr\<close> the counter on
  leaving the loop, \<open>Inl\<close> the counter when it has run past the end of the code.\<close>

function skip_forward :: "string \<Rightarrow> nat \<Rightarrow> nat \<Rightarrow> nat + nat" where
  "skip_forward code pcv nest_level =
     (if nest_level > 0 then
        (let pc1 = pcv + 1 in
         if pc1 \<ge> length code then Inl pc1
         else if code ! pc1 = CHR ''['' then skip_forward code pc1 (nest_level + 1)
         else if code ! pc1 = CHR '']'' then skip_forward code pc1 (nest_level - 1)
         else skip_forward code pc1 nest_level)
      else Inr pcv)"
  by pat_completeness auto
termination
  by (relation "measure (\<lambda>(code, pcv, nest_level). length code - pcv)") auto

declare skip_forward.simps [simp del]

definition op_loop_start :: "string \<Rightarrow> state \<Rightarrow> (diagnostic \<times> state) + state" where
  "op_loop_start code s =
     (if memory s ! ptr s = 0 then
        (case skip_forward code (pc s) 1 of
           Inl pc1 \<Rightarrow>
             Inl (UnmatchedOpen (if length (loop_stack s) > 0 then hd (loop_stack s) else pc1),
                  s\<lparr>pc := pc1\<rparr>)
         | Inr pc1 \<Rightarrow> Inr (s\<lparr>pc := pc1\<rparr>))
      else if length (loop_stack s) \<ge> MAX_NESTED_LOOPS then
        Inl (LoopStackOverflow, s)
      else Inr (s\<lparr>loop_stack := pc s # loop_stack s\<rparr>))"

definition op_loop_end :: "state \<Rightarrow> (diagnostic \<times> state) + state" where
  "op_loop_end s =
     (if length (loop_stack s) \<le> 0 then Inl (UnmatchedClose (pc s), s)
      else if memory s ! ptr s \<noteq> 0 then Inr (s\<lparr>pc := hd (loop_stack s)\<rparr>)
      else Inr (s\<lparr>loop_stack := tl (loop_stack s)\<rparr>))"

text \<open>The \<^verbatim>\<open>switch\<close>: any other character falls through it unchanged.\<close>

definition dispatch ::
  "BrainfuckConfig \<Rightarrow> bool \<Rightarrow> string \<Rightarrow> char \<Rightarrow> state \<Rightarrow> (diagnostic \<times> state) + state" where
  "dispatch config tty code instruction s =
     (if instruction = CHR ''>'' then op_right config s
      else if instruction = CHR ''<'' then op_left config s
      else if instruction = CHR ''+'' then Inr (op_inc s)
      else if instruction = CHR ''-'' then Inr (op_dec s)
      else if instruction = CHR ''.'' then Inr (op_output s)
      else if instruction = CHR '','' then Inr (op_input config tty s)
      else if instruction = CHR ''['' then op_loop_start code s
      else if instruction = CHR '']'' then op_loop_end s
      else Inr s)"

definition debug_hook :: "BrainfuckConfig \<Rightarrow> string \<Rightarrow> state \<Rightarrow> state" where
  "debug_hook config code s =
     (if debug_mode config then
        s\<lparr>stdout := stdout s @
           [print_debug_state (memory s) (ptr s) (memory_size config) (pc s) (code ! pc s)]\<rparr>
      else s)"

text \<open>One pass through the body of \<^verbatim>\<open>while (pc < code_length)\<close>: the debug hook, the
  \<^verbatim>\<open>switch\<close>, and the \<^verbatim>\<open>pc++\<close> that follows every \<^verbatim>\<open>break\<close>.\<close>

definition step ::
  "BrainfuckConfig \<Rightarrow> bool \<Rightarrow> string \<Rightarrow> state \<Rightarrow> (diagnostic \<times> state) + state" where
  "step config tty code s =
     (case dispatch config tty code (code ! pc s) (debug_hook config code s) of
        Inl e \<Rightarrow> Inl e
      | Inr s1 \<Rightarrow> Inr (s1\<lparr>pc := pc s1 + 1\<rparr>))"

text \<open>The main loop. A Brainfuck program may loop forever, so the loop is a partial
  function: \<open>None\<close> is a run that never leaves the loop.\<close>

partial_function (option) run ::
  "BrainfuckConfig \<Rightarrow> bool \<Rightarrow> string \<Rightarrow> state \<Rightarrow> ((diagnostic \<times> state) + state) option" where
  "run config tty code s =
     (if pc s < length code then
        (case step config tty code s of
           Inl e \<Rightarrow> Some (Inl e)
         | Inr s1 \<Rightarrow> run config tty code s1)
      else Some (Inr s))"

definition init_state :: "BrainfuckConfig \<Rightarrow> host \<Rightarrow> state" where
  "init_state config h =
     \<lparr>memory = replicate (memory_size config) 0, ptr = 0, pc = 0, loop_stack = [],
      input_buffer = [], input_pos = 0, input_size = 0,
      stdin = stdin_bytes h, stdout = []\<rparr>"

definition execute_brainfuck :: "host \<Rightarrow> string \<Rightarrow> BrainfuckConfig \<Rightarrow> outcome option" where
  "execute_brainfuck h code config =
     (if \<not> calloc_ok h then Some (NoRun AllocationFailure)
      else if \<not> malloc_ok h then Some (NoRun AllocationFailureLoopStack)
      else
        (case run config (isatty_stdin h) code (init_state config h) of
           None \<Rightarrow> None
         | Some (Inl (e, s)) \<Rightarrow> Some (Halt e s)
         | Some (Inr s) \<Rightarrow>
             Some (Exit (if length (loop_stack s) \<noteq> 0
                         then Some (UnclosedLoops (length (loop_stack s))) else None) s)))"

section \<open>Bracket matching, stated without the scan\<close>

text \<open>
  The nesting level at index \<open>j\<close> of a scan that starts at index \<open>i\<close> with level
  \<open>n\<close>: every \<^verbatim>\<open>[\<close> in \<open>code[i + 1 .. j]\<close> counts \<open>+1\<close>, every \<^verbatim>\<open>]\<close> counts
  \<open>-1\<close>. The scan stops at the first index behind \<open>i\<close> where the level is 0, the
  level being positive before; for a \<^verbatim>\<open>[\<close> at \<open>i\<close> and level 1 that index is its
  matching \<^verbatim>\<open>]\<close>.
\<close>

definition bracket_value :: "char \<Rightarrow> int" where
  "bracket_value c = (if c = CHR ''['' then 1 else if c = CHR '']'' then - 1 else 0)"

definition nest_level_at :: "nat \<Rightarrow> string \<Rightarrow> nat \<Rightarrow> nat \<Rightarrow> int" where
  "nest_level_at n code i j = int n + sum_list (map bracket_value (take (j - i) (drop (i + 1) code)))"

definition scan_stops_at :: "nat \<Rightarrow> string \<Rightarrow> nat \<Rightarrow> nat \<Rightarrow> bool" where
  "scan_stops_at n code i j \<longleftrightarrow>
     i < j \<and> j < length code \<and> nest_level_at n code i j = 0 \<and>
     (\<forall>k \<in> {i + 1 ..< j}. 0 < nest_level_at n code i k)"

definition matching_close :: "string \<Rightarrow> nat \<Rightarrow> nat \<Rightarrow> bool" where
  "matching_close code i j = scan_stops_at 1 code i j"

section \<open>The states of a run\<close>

text \<open>The state after exactly \<open>k\<close> turns of the main loop, if the run gets that far
  without an error return.\<close>

fun steps :: "BrainfuckConfig \<Rightarrow> bool \<Rightarrow> string \<Rightarrow> nat \<Rightarrow> state \<Rightarrow> state option" where
  "steps config tty code 0 s = Some s"
| "steps config tty code (Suc k) s =
     (if pc s < length code then
        (case step config tty code s of
           Inl e \<Rightarrow> None
         | Inr s1 \<Rightarrow> steps config tty code k s1)
      else None)"

text \<open>The unread part of the input buffer holds no NUL.\<close>

definition input_ok :: "state \<Rightarrow> bool" where
  "input_ok s \<longleftrightarrow> (\<forall>i \<in> {input_pos s ..< input_size s}. input_buffer s ! i \<noteq> 0)"

text \<open>
  \<open>open_until code p q\<close>: index \<open>p\<close> holds a \<^verbatim>\<open>[\<close> that is still open just before
  index \<open>q\<close>, with every bracket between them matched. \<open>stack_ok code q st\<close>: the
  loop stack \<open>st\<close> lists, innermost first, \<^verbatim>\<open>[\<close>s that are open in this sense, each
  one inside the next, when the counter is \<open>q\<close>.
\<close>

definition open_until :: "string \<Rightarrow> nat \<Rightarrow> nat \<Rightarrow> bool" where
  "open_until code p q \<longleftrightarrow>
     p < q \<and> code ! p = CHR ''['' \<and> nest_level_at 1 code p (q - 1) = 1 \<and>
     (\<forall>k \<in> {p + 1 ..< q}. 0 < nest_level_at 1 code p k)"

fun stack_ok :: "string \<Rightarrow> nat \<Rightarrow> nat list \<Rightarrow> bool" where
  "stack_ok code q [] = True"
| "stack_ok code q (p # st) = (open_until code p q \<and> stack_ok code p st)"

section \<open>The forward scan finds the matching bracket\<close>

lemma nest_level_at_self: "nest_level_at n code i i = int n"
  by (simp add: nest_level_at_def)

lemma nest_level_at_Suc:
  assumes "i + 1 < length code" "i < j"
  shows "nest_level_at n code i j = bracket_value (code ! (i + 1)) + nest_level_at n code (i + 1) j"
proof -
  from assms(2) have d: "j - i = Suc (j - Suc i)"
    by simp
  have "drop (i + 1) code = code ! (i + 1) # drop (i + 1 + 1) code"
    using assms(1) by (metis Cons_nth_drop_Suc Suc_eq_plus1)
  then show ?thesis
    by (simp add: nest_level_at_def d)
qed

lemma scan_stops_at_step:
  assumes lt: "i + 1 < length code"
    and n': "int n' = int n + bracket_value (code ! (i + 1))" "0 < n'"
  shows "scan_stops_at n code i j \<longleftrightarrow> scan_stops_at n' code (i + 1) j"
proof -
  have eq: "nest_level_at n code i k = nest_level_at n' code (i + 1) k" if "i < k" for k
    using nest_level_at_Suc [OF lt that, of n] n'(1) by (simp add: nest_level_at_def)
  have at: "0 < nest_level_at n code i (i + 1)"
    using eq [of "i + 1"] n'(2) by (simp add: nest_level_at_self)
  show ?thesis
  proof
    assume L: "scan_stops_at n code i j"
    then have "j \<noteq> i + 1" using at by (auto simp: scan_stops_at_def)
    with L have "i + 1 < j" by (simp add: scan_stops_at_def)
    with L show "scan_stops_at n' code (i + 1) j"
      by (auto simp: scan_stops_at_def eq)
  next
    assume R: "scan_stops_at n' code (i + 1) j"
    then have ij: "i + 1 < j" by (simp add: scan_stops_at_def)
    have "0 < nest_level_at n code i k" if "k \<in> {i + 1 ..< j}" for k
    proof (cases "k = i + 1")
      case True
      then show ?thesis using at by simp
    next
      case False
      with that have "k \<in> {i + 1 + 1 ..< j}" by auto
      with R have "0 < nest_level_at n' code (i + 1) k" by (simp add: scan_stops_at_def)
      then show ?thesis using that eq [of k] by simp
    qed
    with R ij show "scan_stops_at n code i j"
      by (simp add: scan_stops_at_def eq)
  qed
qed

lemma scan_stops_at_close:
  assumes lt: "i + 1 < length code" and c: "code ! (i + 1) = CHR '']''"
  shows "scan_stops_at 1 code i j \<longleftrightarrow> j = i + 1"
proof -
  have z: "nest_level_at 1 code i (i + 1) = 0"
    using nest_level_at_Suc [OF lt, of "i + 1" 1] c
    by (simp add: nest_level_at_self bracket_value_def)
  show ?thesis
  proof
    assume L: "scan_stops_at 1 code i j"
    show "j = i + 1"
    proof (rule ccontr)
      assume "j \<noteq> i + 1"
      with L have "i + 1 \<in> {i + 1 ..< j}" by (auto simp: scan_stops_at_def)
      with L have "0 < nest_level_at 1 code i (i + 1)" unfolding scan_stops_at_def by blast
      with z show False by simp
    qed
  next
    assume "j = i + 1"
    then show "scan_stops_at 1 code i j" using z lt by (simp add: scan_stops_at_def)
  qed
qed

lemma skip_forward_zero: "skip_forward code p 0 = Inr p"
  by (subst skip_forward.simps) simp

lemma skip_forward_iff:
  "0 < n \<Longrightarrow> skip_forward code i n = Inr j \<longleftrightarrow> scan_stops_at n code i j"
proof (induction code i n arbitrary: j rule: skip_forward.induct)
  case (1 code i n)
  show ?case
  proof (cases "i + 1 \<ge> length code")
    case True
    then show ?thesis using "1.prems"
      by (simp add: skip_forward.simps [of code i n] scan_stops_at_def)
  next
    case False
    then have lt: "i + 1 < length code" by simp
    let ?c = "code ! (i + 1)"
    show ?thesis
    proof (cases "?c = CHR ''[''")
      case True
      have "scan_stops_at n code i j \<longleftrightarrow> scan_stops_at (n + 1) code (i + 1) j"
        by (rule scan_stops_at_step [OF lt]) (use True in \<open>simp_all add: bracket_value_def\<close>)
      moreover have "skip_forward code i n = skip_forward code (i + 1) (n + 1)"
        using "1.prems" lt True by (simp add: skip_forward.simps [of code i n])
      ultimately show ?thesis
        using "1.IH"(1) [OF "1.prems" refl _ True, of j] lt by simp
    next
      case nopen: False
      show ?thesis
      proof (cases "?c = CHR '']''")
        case True
        have sk: "skip_forward code i n = skip_forward code (i + 1) (n - 1)"
          using "1.prems" lt True nopen by (simp add: skip_forward.simps [of code i n])
        show ?thesis
        proof (cases "n = 1")
          case n1: True
          have "skip_forward code i n = Inr (i + 1)"
            using sk n1 by (simp add: skip_forward_zero)
          then show ?thesis
            using scan_stops_at_close [OF lt True, of j] n1 by auto
        next
          case False
          with "1.prems" have pos: "0 < n - 1" by simp
          have "scan_stops_at n code i j \<longleftrightarrow> scan_stops_at (n - 1) code (i + 1) j"
            by (rule scan_stops_at_step [OF lt]) (use pos True in \<open>simp_all add: bracket_value_def\<close>)
          then show ?thesis
            using "1.IH"(2) [OF "1.prems" refl _ nopen True pos, of j] lt sk by simp
        qed
      next
        case False
        have "scan_stops_at n code i j \<longleftrightarrow> scan_stops_at n code (i + 1) j"
          by (rule scan_stops_at_step [OF lt]) (use "1.prems" nopen False in \<open>simp_all add: bracket_value_def\<close>)
        moreover have "skip_forward code i n = skip_forward code (i + 1) n"
          using "1.prems" lt nopen False by (simp add: skip_forward.simps [of code i n])
        ultimately show ?thesis
          using "1.IH"(3) [OF "1.prems" refl _ nopen False "1.prems", of j] lt by simp
      qed
    qed
  qed
qed

section \<open>Basic facts about the engine\<close>

lemmas engine_defs = step_def dispatch_def debug_hook_def op_right_def op_left_def op_inc_def
  op_dec_def op_output_def op_input_def op_loop_start_def op_loop_end_def refill_def

text \<open>The three ways through one turn of the main loop.\<close>

lemma run_end: "\<not> pc s < length code \<Longrightarrow> run config tty code s = Some (Inr s)"
  by (subst run.simps) simp

lemma run_Inr: "pc s < length code \<Longrightarrow> step config tty code s = Inr s1 \<Longrightarrow>
  run config tty code s = run config tty code s1"
  by (subst run.simps) simp

lemma run_Inl: "pc s < length code \<Longrightarrow> step config tty code s = Inl e \<Longrightarrow>
  run config tty code s = Some (Inl e)"
  by (subst run.simps) simp

lemma debug_hook_simps [simp]:
  "ptr (debug_hook config code s) = ptr s"
  "pc (debug_hook config code s) = pc s"
  "memory (debug_hook config code s) = memory s"
  "loop_stack (debug_hook config code s) = loop_stack s"
  "input_pos (debug_hook config code s) = input_pos s"
  "input_size (debug_hook config code s) = input_size s"
  "input_buffer (debug_hook config code s) = input_buffer s"
  "stdin (debug_hook config code s) = stdin s"
  by (simp_all add: debug_hook_def)

text \<open>A failed scan has run to the end of the code; a scan from a \<^verbatim>\<open>[\<close> with level 1
  succeeds exactly at the matching \<^verbatim>\<open>]\<close>.\<close>

lemma skip_forward_Inl:
  "skip_forward code i n = Inl p \<Longrightarrow> i < length code \<Longrightarrow> p = length code"
proof (induction code i n rule: skip_forward.induct)
  case (1 code i n)
  show ?case
  proof (cases "i + 1 \<ge> length code")
    case True
    with "1.prems" show ?thesis
      by (simp add: skip_forward.simps [of code i n] split: if_splits)
  next
    case False
    with "1.prems" "1.IH" show ?thesis
      by (simp add: skip_forward.simps [of code i n] split: if_splits)
  qed
qed

lemma skip_forward_matching:
  "matching_close code i j \<Longrightarrow> skip_forward code i (Suc 0) = Inr j"
  using skip_forward_iff [of 1 code i j] by (simp add: matching_close_def)

lemma skip_forward_unmatched:
  assumes "\<forall>j. \<not> matching_close code i j" "i < length code"
  shows "skip_forward code i (Suc 0) = Inl (length code)"
proof (cases "skip_forward code i (Suc 0)")
  case (Inl p)
  with skip_forward_Inl [OF Inl assms(2)] show ?thesis by simp
next
  case (Inr j)
  then have "matching_close code i j"
    using skip_forward_iff [of 1 code i j] by (simp add: matching_close_def)
  with assms(1) show ?thesis by blast
qed

text \<open>Normal forms for the tape of a concrete run.\<close>

lemma swap01: "xs[Suc 0 := a, 0 := b] = xs[0 := b, Suc 0 := a]"
  by (simp add: list_update_swap)

lemma replicate_update_same: "(replicate n x)[i := x] = replicate n x"
  by (induction n arbitrary: i) (auto split: nat.splits)

lemmas run_defs = run.simps engine_defs init_state_def default_config_def DEFAULT_MEMORY_SIZE_def MAX_NESTED_LOOPS_def
  execute_brainfuck_def swap01 replicate_update_same skip_forward.simps

text \<open>A stretch of code on which every step succeeds and advances the counter by one
  runs to the end of the code; \<open>f\<close> observes the state and \<open>g\<close> is what one step
  does to the observation.\<close>

lemma run_repeat:
  assumes st: "\<And>s. pc s < length code \<Longrightarrow> P s \<Longrightarrow>
      \<exists>s1. step config tty code s = Inr s1 \<and> pc s1 = pc s + 1 \<and> P s1 \<and> f s1 = g (f s)"
  shows "length code - pc s = k \<Longrightarrow> P s \<Longrightarrow>
    \<exists>s'. run config tty code s = Some (Inr s') \<and> P s' \<and> f s' = (g ^^ k) (f s)"
proof (induction k arbitrary: s)
  case 0
  then show ?case by (simp add: run_end)
next
  case (Suc k)
  then have lt: "pc s < length code" by simp
  from st [OF lt Suc.prems(2)] obtain s1 where s1:
    "step config tty code s = Inr s1" "pc s1 = pc s + 1" "P s1" "f s1 = g (f s)"
    by blast
  have "length code - pc s1 = k" using Suc.prems(1) s1(2) by simp
  from Suc.IH [OF this s1(3)] obtain s' where
    "run config tty code s1 = Some (Inr s')" "P s'" "f s' = (g ^^ k) (f s1)"
    by blast
  then show ?case
    using run_Inr [OF lt s1(1)] s1(4) by (simp add: funpow_swap1)
qed

lemma funpow_add_mod: "((\<lambda>p. (p + d) mod m) ^^ k) p = (if k = 0 then p else (p + k * d) mod (m::nat))"
proof (induction k)
  case 0
  show ?case by simp
next
  case (Suc k)
  show ?case
  proof (cases "k = 0")
    case True
    then show ?thesis by simp
  next
    case False
    have "((p + k * d) mod m + d) mod m = (p + k * d + d) mod m"
      by (simp add: mod_add_left_eq)
    with False Suc show ?thesis by (simp add: ac_simps)
  qed
qed

lemma funpow_word_inc: "((\<lambda>v. v + 1) ^^ k) (v::u8) = v + of_nat k"
  by (induction k) simp_all

lemma funpow_word_dec: "((\<lambda>v. v - 1) ^^ k) (v::u8) = v - of_nat k"
  by (induction k) simp_all

lemma wrap_right_mod:
  "1 \<le> m \<Longrightarrow> p < m \<Longrightarrow> (if p = m - 1 then 0 else p + 1) = (p + 1) mod (m::nat)"
  by (auto simp: Suc_lessI)

lemma wrap_left_mod:
  assumes "1 \<le> m" "p < m"
  shows "(if p = 0 then m - 1 else p - 1) = (p + (m - 1)) mod (m::nat)"
proof (cases "p = 0")
  case True
  with assms show ?thesis by simp
next
  case False
  then have "p + (m - 1) = (p - 1) + m" using assms by arith
  then have "(p + (m - 1)) mod m = (p - 1) mod m" by simp
  with False assms show ?thesis by simp
qed

section \<open>Single steps\<close>

text \<open>The debug hook writes no program output.\<close>

lemma program_output_append:
  "program_output (xs @ ys) = program_output xs @ program_output ys"
  by (induction xs rule: program_output.induct) simp_all

lemma debug_hook_output [simp]:
  "program_output (stdout (debug_hook config code s)) = program_output (stdout s)"
  by (simp add: debug_hook_def program_output_append print_debug_state_def Let_def)

lemma step_skip:
  assumes "code ! pc s = CHR ''[''" "memory s ! ptr s = 0" "matching_close code (pc s) j"
  shows "step config tty code s = Inr ((debug_hook config code s)\<lparr>pc := j + 1\<rparr>)"
  using assms by (simp add: engine_defs skip_forward_matching)

lemma matching_close_bounds: "matching_close code i j \<Longrightarrow> i < j \<and> j < length code"
  by (simp add: matching_close_def scan_stops_at_def)

lemma level_never_zero_unmatched:
  assumes "\<forall>j \<in> {i + 1 ..< length code}. nest_level_at 1 code i j \<noteq> 0"
  shows "\<forall>j. \<not> matching_close code i j"
proof (intro allI notI)
  fix j
  assume "matching_close code i j"
  then have "j \<in> {i + 1 ..< length code}" "nest_level_at 1 code i j = 0"
    by (simp_all add: matching_close_def scan_stops_at_def)
  with assms show False by blast
qed

lemma step_right_wrap:
  assumes "wrap_memory config" "code ! pc s = CHR ''>''"
  shows "step config tty code s =
    Inr ((debug_hook config code s)
          \<lparr>ptr := (if ptr s = memory_size config - 1 then 0 else ptr s + 1), pc := pc s + 1\<rparr>)"
  using assms by (simp add: engine_defs)

lemma step_left_wrap:
  assumes "wrap_memory config" "code ! pc s = CHR ''<''"
  shows "step config tty code s =
    Inr ((debug_hook config code s)
          \<lparr>ptr := (if ptr s = 0 then memory_size config - 1 else ptr s - 1), pc := pc s + 1\<rparr>)"
  using assms by (simp add: engine_defs)

lemma step_inc:
  assumes "code ! pc s = CHR ''+''"
  shows "step config tty code s =
    Inr ((debug_hook config code s)
          \<lparr>memory := (memory s)[ptr s := memory s ! ptr s + 1], pc := pc s + 1\<rparr>)"
  using assms by (simp add: engine_defs)

lemma step_dec:
  assumes "code ! pc s = CHR ''-''"
  shows "step config tty code s =
    Inr ((debug_hook config code s)
          \<lparr>memory := (memory s)[ptr s := memory s ! ptr s - 1], pc := pc s + 1\<rparr>)"
  using assms by (simp add: engine_defs)

lemmas input_defs = fgets_def strlen_def INPUT_BUFFER_SIZE_def

lemma step_input_eof:
  assumes "code ! pc s = CHR '',''" "input_size s \<le> input_pos s" "stdin s = []"
  shows "step config tty code s =
    Inr ((debug_hook config code s)
      \<lparr>memory := (if eof_behavior config then (memory s)[ptr s := 0] else memory s),
       input_pos := 0, input_size := 0,
       stdout := stdout (debug_hook config code s) @ (if tty then [Prompt] else []),
       pc := pc s + 1\<rparr>)"
  using assms by (simp add: engine_defs input_defs)

section \<open>Repeated moves and increments\<close>

lemma run_moves:
  assumes w: "wrap_memory config" and m: "1 \<le> memory_size config"
    and p: "ptr s < memory_size config" and pc0: "pc s = 0"
    and c: "c = CHR ''>'' \<and> d = 1 \<or> c = CHR ''<'' \<and> d = memory_size config - 1"
  shows "\<exists>s'. run config tty (replicate (memory_size config) c) s = Some (Inr s') \<and>
         ptr s' = ptr s"
proof -
  let ?m = "memory_size config"
  let ?code = "replicate ?m c"
  have "\<exists>s'. run config tty ?code s = Some (Inr s') \<and> ptr s' < ?m \<and>
      ptr s' = ((\<lambda>p. (p + d) mod ?m) ^^ ?m) (ptr s)"
  proof (rule run_repeat [where P = "\<lambda>s. ptr s < ?m" and f = ptr])
    fix s :: state
    assume a: "pc s < length ?code" "ptr s < ?m"
    then have i: "?code ! pc s = c" by simp
    from c show "\<exists>s1. step config tty ?code s = Inr s1 \<and> pc s1 = pc s + 1 \<and> ptr s1 < ?m \<and>
        ptr s1 = (ptr s + d) mod ?m"
    proof (elim disjE conjE)
      assume "c = CHR ''>''" "d = 1"
      with step_right_wrap [OF w, of ?code s tty] i wrap_right_mod [OF m a(2)] m
      show ?thesis by simp
    next
      assume "c = CHR ''<''" "d = ?m - 1"
      with step_left_wrap [OF w, of ?code s tty] i wrap_left_mod [OF m a(2)] m
      show ?thesis by simp
    qed
  qed (use p pc0 in simp_all)
  moreover have "((\<lambda>p. (p + d) mod ?m) ^^ ?m) (ptr s) = (ptr s + ?m * d) mod ?m"
    using m by (subst funpow_add_mod) simp
  moreover have "(ptr s + ?m * d) mod ?m = ptr s"
    using p by simp
  ultimately show ?thesis by auto
qed

lemma run_incs:
  assumes p: "ptr s < length (memory s)" and pc0: "pc s = 0"
  shows "\<exists>s'. run config tty (replicate n CHR ''+'') s = Some (Inr s') \<and>
         ptr s' = ptr s \<and> memory s' ! ptr s' = memory s ! ptr s + of_nat n"
proof -
  let ?code = "replicate n CHR ''+''"
  let ?P = "\<lambda>t. ptr t = ptr s \<and> ptr t < length (memory t)"
  have "\<exists>s'. run config tty ?code s = Some (Inr s') \<and> ?P s' \<and>
      memory s' ! ptr s' = ((\<lambda>v. v + 1) ^^ n) (memory s ! ptr s)"
  proof (rule run_repeat [where P = ?P and f = "\<lambda>t. memory t ! ptr t"])
    fix t :: state
    assume a: "pc t < length ?code" "?P t"
    then have i: "?code ! pc t = CHR ''+''" by simp
    from step_inc [OF i, of config tty] a(2)
    show "\<exists>s1. step config tty ?code t = Inr s1 \<and> pc s1 = pc t + 1 \<and> ?P s1 \<and>
        memory s1 ! ptr s1 = memory t ! ptr t + 1"
      by simp
  qed (use p pc0 in simp_all)
  then show ?thesis by (auto simp: funpow_word_inc)
qed

section \<open>The loop stack holds the enclosing open brackets\<close>

lemma nest_level_at_base: "nest_level_at n code i j = int n + nest_level_at 0 code i j"
  by (simp add: nest_level_at_def)

lemma nest_level_at_split:
  assumes "i \<le> j" "j \<le> k"
  shows "nest_level_at n code i k = nest_level_at n code i j + nest_level_at 0 code j k"
proof -
  have "k - i = (j - i) + (k - j)" using assms by simp
  then have "take (k - i) (drop (i + 1) code) =
      take (j - i) (drop (i + 1) code) @ take (k - j) (drop (j - i) (drop (i + 1) code))"
    by (simp add: take_add)
  moreover have "drop (j - i) (drop (i + 1) code) = drop (j + 1) code"
    using assms(1) by simp
  ultimately show ?thesis by (simp add: nest_level_at_def)
qed

lemma nest_level_at_one:
  assumes "j + 1 < length code"
  shows "nest_level_at 0 code j (j + 1) = bracket_value (code ! (j + 1))"
  using nest_level_at_Suc [OF assms, of "j + 1" 0] by (simp add: nest_level_at_self)

lemma nest_level_at_last:
  assumes "i \<le> j" "j + 1 < length code"
  shows "nest_level_at n code i (j + 1) = nest_level_at n code i j + bracket_value (code ! (j + 1))"
  using nest_level_at_split [OF assms(1), of "j + 1" n code] nest_level_at_one [OF assms(2)]
  by simp

text \<open>The level seen from an open bracket, continued over a further stretch.\<close>

lemma open_until_extend:
  assumes o: "open_until code p q" and qr: "q \<le> r"
    and z: "nest_level_at 0 code (q - 1) r = 0"
    and nn: "\<forall>k \<in> {q ..< r + 1}. 0 \<le> nest_level_at 0 code (q - 1) k"
  shows "open_until code p (r + 1)"
proof -
  from o have pq: "p < q" and b: "code ! p = CHR ''[''"
    and l1: "nest_level_at 1 code p (q - 1) = 1"
    and pos: "\<forall>k \<in> {p + 1 ..< q}. 0 < nest_level_at 1 code p k"
    by (simp_all add: open_until_def)
  have sp: "nest_level_at 1 code p k = 1 + nest_level_at 0 code (q - 1) k" if "q \<le> k" for k
    using nest_level_at_split [of p "q - 1" k 1 code] pq that l1 by simp
  have "0 < nest_level_at 1 code p k" if "k \<in> {p + 1 ..< r + 1}" for k
  proof (cases "k < q")
    case True
    with that pos show ?thesis by simp
  next
    case False
    then have "q \<le> k" by simp
    moreover from this that nn have "0 \<le> nest_level_at 0 code (q - 1) k" by simp
    ultimately show ?thesis using sp by simp
  qed
  moreover have "nest_level_at 1 code p (r + 1 - 1) = 1"
    using sp [OF qr] z by simp
  ultimately show ?thesis using pq qr b by (simp add: open_until_def)
qed

lemma open_until_fresh: "code ! q = CHR ''['' \<Longrightarrow> open_until code q (q + 1)"
  by (simp add: open_until_def nest_level_at_self)

lemma open_until_plain:
  assumes "open_until code p q" "q < length code" "bracket_value (code ! q) = 0"
  shows "open_until code p (q + 1)"
proof (rule open_until_extend [OF assms(1) order_refl])
  from assms(1) have "0 < q" by (simp add: open_until_def)
  then have "nest_level_at 0 code (q - 1) q = bracket_value (code ! q)"
    using nest_level_at_one [of "q - 1" code] assms(2) by simp
  with assms(3) show "nest_level_at 0 code (q - 1) q = 0"
    "\<forall>k \<in> {q ..< q + 1}. 0 \<le> nest_level_at 0 code (q - 1) k"
    by simp_all
qed

text \<open>Seen from just before an open bracket at \<open>q\<close>, the level over the bracket and what
  follows is the level of a scan started at that bracket.\<close>

lemma nest_level_from_before:
  assumes "0 < q" "q < length code" "code ! q = CHR ''[''" "q \<le> k"
  shows "nest_level_at 0 code (q - 1) k = nest_level_at 1 code q k"
proof -
  have "nest_level_at 0 code (q - 1) q = 1"
    using nest_level_at_one [of "q - 1" code] assms(1,2,3) by (simp add: bracket_value_def)
  then show ?thesis
    using nest_level_at_split [of "q - 1" q k 0 code] assms(4) nest_level_at_base [of 1 code q k]
    by simp
qed

lemma open_until_skip:
  assumes o: "open_until code p q" and b: "code ! q = CHR ''[''" and m: "matching_close code q j"
  shows "open_until code p (j + 1)"
proof (rule open_until_extend [OF o])
  from o have q0: "0 < q" by (simp add: open_until_def)
  from m have qj: "q < j" "j < length code" and z: "nest_level_at 1 code q j = 0"
    and pos: "\<forall>k \<in> {q + 1 ..< j}. 0 < nest_level_at 1 code q k"
    by (simp_all add: matching_close_def scan_stops_at_def)
  then have ql: "q < length code" by simp
  show "q \<le> j" using qj by simp
  show "nest_level_at 0 code (q - 1) j = 0"
    using nest_level_from_before [OF q0 ql b, of j] qj z by simp
  show "\<forall>k \<in> {q ..< j + 1}. 0 \<le> nest_level_at 0 code (q - 1) k"
  proof
    fix k assume k: "k \<in> {q ..< j + 1}"
    then have e: "nest_level_at 0 code (q - 1) k = nest_level_at 1 code q k"
      using nest_level_from_before [OF q0 ql b, of k] by simp
    consider "k = q" | "k \<in> {q + 1 ..< j}" | "k = j" using k by force
    then show "0 \<le> nest_level_at 0 code (q - 1) k"
    proof cases
      case 1 then show ?thesis using e by (simp add: nest_level_at_self)
    next
      case 2 with pos have "0 < nest_level_at 1 code q k" by blast
      then show ?thesis using e by simp
    next
      case 3 then show ?thesis using e z by simp
    qed
  qed
qed

lemma open_until_matching:
  assumes o: "open_until code p q" and c: "code ! q = CHR '']''" and ql: "q < length code"
  shows "matching_close code p q"
proof -
  from o have pq: "p < q" and l1: "nest_level_at 1 code p (q - 1) = 1"
    and pos: "\<forall>k \<in> {p + 1 ..< q}. 0 < nest_level_at 1 code p k"
    by (simp_all add: open_until_def)
  have "nest_level_at 1 code p q = 0"
    using nest_level_at_last [of p "q - 1" code 1] pq ql l1 c by (simp add: bracket_value_def)
  with pq ql pos show ?thesis by (simp add: matching_close_def scan_stops_at_def)
qed

lemma open_until_pop:
  assumes o2: "open_until code p2 p" and o: "open_until code p q"
    and c: "code ! q = CHR '']''" and ql: "q < length code"
  shows "open_until code p2 (q + 1)"
proof (rule open_until_extend [OF o2])
  from o2 have p0: "0 < p" by (simp add: open_until_def)
  from o have pq: "p < q" and b: "code ! p = CHR ''[''" by (simp_all add: open_until_def)
  from pq ql have pl: "p < length code" by simp
  from open_until_matching [OF o c ql]
  have z: "nest_level_at 1 code p q = 0"
    and pos: "\<forall>k \<in> {p + 1 ..< q}. 0 < nest_level_at 1 code p k"
    by (simp_all add: matching_close_def scan_stops_at_def)
  show "p \<le> q" using pq by simp
  show "nest_level_at 0 code (p - 1) q = 0"
    using nest_level_from_before [OF p0 pl b, of q] pq z by simp
  show "\<forall>k \<in> {p ..< q + 1}. 0 \<le> nest_level_at 0 code (p - 1) k"
  proof
    fix k assume k: "k \<in> {p ..< q + 1}"
    then have e: "nest_level_at 0 code (p - 1) k = nest_level_at 1 code p k"
      using nest_level_from_before [OF p0 pl b, of k] by simp
    consider "k = p" | "k \<in> {p + 1 ..< q}" | "k = q" using k by force
    then show "0 \<le> nest_level_at 0 code (p - 1) k"
    proof cases
      case 1 then show ?thesis using e by (simp add: nest_level_at_self)
    next
      case 2 with pos have "0 < nest_level_at 1 code p k" by blast
      then show ?thesis using e by simp
    next
      case 3 then show ?thesis using e z by simp
    qed
  qed
qed

lemma stack_ok_plain:
  assumes "stack_ok code q st" "q < length code" "bracket_value (code ! q) = 0"
  shows "stack_ok code (q + 1) st"
proof (cases st)
  case Nil
  then show ?thesis by simp
next
  case (Cons p rest)
  with assms(1) have "open_until code p q" "stack_ok code p rest" by simp_all
  with open_until_plain [OF this(1) assms(2,3)] Cons show ?thesis by simp
qed

lemma stack_ok_skip:
  assumes "stack_ok code q st" "code ! q = CHR ''[''" "matching_close code q j"
  shows "stack_ok code (j + 1) st"
proof (cases st)
  case Nil
  then show ?thesis by simp
next
  case (Cons p rest)
  with assms(1) have "open_until code p q" "stack_ok code p rest" by simp_all
  with open_until_skip [OF this(1) assms(2,3)] Cons show ?thesis by simp
qed

lemma stack_ok_push:
  assumes "stack_ok code q st" "code ! q = CHR ''[''"
  shows "stack_ok code (q + 1) (q # st)"
  using assms open_until_fresh [OF assms(2)] by simp

lemma stack_ok_back:
  assumes "stack_ok code q (p # st)"
  shows "stack_ok code (p + 1) (p # st)"
proof -
  from assms have "code ! p = CHR ''[''" "stack_ok code p st"
    by (simp_all add: open_until_def)
  with open_until_fresh [OF this(1)] show ?thesis by simp
qed

lemma stack_ok_pop:
  assumes "stack_ok code q (p # st)" "code ! q = CHR '']''" "q < length code"
  shows "stack_ok code (q + 1) st"
proof (cases st)
  case Nil
  then show ?thesis by simp
next
  case (Cons p2 rest)
  with assms(1) have "open_until code p q" "open_until code p2 p" "stack_ok code p2 rest"
    by simp_all
  with open_until_pop [OF this(2,1) assms(2,3)] Cons show ?thesis by simp
qed

lemma step_plain:
  assumes "code ! pc s \<noteq> CHR ''[''" "code ! pc s \<noteq> CHR '']''"
    "step config tty code s = Inr s'"
  shows "pc s' = pc s + 1 \<and> loop_stack s' = loop_stack s"
  using assms
  by (auto simp: step_def dispatch_def op_right_def op_left_def op_inc_def op_dec_def
      op_output_def op_input_def refill_def Let_def split: if_splits option.splits)

lemma step_stack_ok:
  assumes inv: "stack_ok code (pc s) (loop_stack s)" and lt: "pc s < length code"
    and st: "step config tty code s = Inr s'"
  shows "stack_ok code (pc s') (loop_stack s')"
proof -
  let ?c = "code ! pc s"
  consider (opn) "?c = CHR ''[''" | (cls) "?c = CHR '']''"
    | (plain) "?c \<noteq> CHR ''[''" "?c \<noteq> CHR '']''" by blast
  then show ?thesis
  proof cases
    case opn
    show ?thesis
    proof (cases "memory s ! ptr s = 0")
      case True
      with opn st obtain j where j: "skip_forward code (pc s) (Suc 0) = Inr j"
        and s': "s' = (debug_hook config code s)\<lparr>pc := j + 1\<rparr>"
        by (auto simp: step_def dispatch_def op_loop_start_def split: sum.splits)
      from j have "matching_close code (pc s) j"
        using skip_forward_iff [of 1 code "pc s" j] by (simp add: matching_close_def)
      from stack_ok_skip [OF inv opn this] s' show ?thesis by simp
    next
      case False
      with opn st have "s' = (debug_hook config code s)\<lparr>loop_stack := pc s # loop_stack s, pc := pc s + 1\<rparr>"
        by (auto simp: step_def dispatch_def op_loop_start_def split: if_splits)
      with stack_ok_push [OF inv opn] show ?thesis by simp
    qed
  next
    case cls
    with st obtain p rest where ls: "loop_stack s = p # rest"
      by (cases "loop_stack s") (auto simp: step_def dispatch_def op_loop_end_def)
    show ?thesis
    proof (cases "memory s ! ptr s = 0")
      case True
      with cls st ls have "s' = (debug_hook config code s)\<lparr>loop_stack := rest, pc := pc s + 1\<rparr>"
        by (auto simp: step_def dispatch_def op_loop_end_def)
      with stack_ok_pop [of code "pc s" p rest] inv ls cls lt show ?thesis by simp
    next
      case False
      with cls st ls have "s' = (debug_hook config code s)\<lparr>pc := p + 1\<rparr>"
        by (auto simp: step_def dispatch_def op_loop_end_def)
      with stack_ok_back [of code "pc s" p rest] inv ls show ?thesis by simp
    qed
  next
    case plain
    from step_plain [OF plain st] have e: "pc s' = pc s + 1" "loop_stack s' = loop_stack s"
      by simp_all
    from plain have "bracket_value ?c = 0" by (simp add: bracket_value_def)
    from stack_ok_plain [OF inv lt this] e show ?thesis by simp
  qed
qed

lemma steps_invariant:
  assumes pres: "\<And>s s'. P s \<Longrightarrow> pc s < length code \<Longrightarrow> step config tty code s = Inr s' \<Longrightarrow> P s'"
  shows "P s \<Longrightarrow> steps config tty code k s = Some s' \<Longrightarrow> P s'"
proof (induction k arbitrary: s)
  case 0
  then show ?case by simp
next
  case (Suc k)
  from Suc.prems(2) obtain s1 where lt: "pc s < length code"
    and s1: "step config tty code s = Inr s1" "steps config tty code k s1 = Some s'"
    by (auto split: if_splits sum.splits)
  from pres [OF Suc.prems(1) lt s1(1)] have "P s1" .
  from Suc.IH [OF this s1(2)] show ?case .
qed

lemma reachable_stack_ok:
  assumes "steps config tty code k (init_state config h) = Some s"
  shows "stack_ok code (pc s) (loop_stack s)"
proof (rule steps_invariant [where P = "\<lambda>s. stack_ok code (pc s) (loop_stack s)", OF _ _ assms])
  show "stack_ok code (pc (init_state config h)) (loop_stack (init_state config h))"
    by (simp add: init_state_def)
qed (rule step_stack_ok)

section \<open>The input buffer\<close>

lemma strlen_nth: "i < strlen buf \<Longrightarrow> buf ! i \<noteq> 0"
proof -
  assume a: "i < strlen buf"
  then have "takeWhile (\<lambda>b. b \<noteq> 0) buf ! i \<in> set (takeWhile (\<lambda>b. b \<noteq> 0) buf)"
    by (simp add: strlen_def)
  then have "takeWhile (\<lambda>b. b \<noteq> 0) buf ! i \<noteq> 0"
    by (auto dest: set_takeWhileD)
  moreover have "takeWhile (\<lambda>b. b \<noteq> 0) buf ! i = buf ! i"
    using a by (simp add: strlen_def takeWhile_nth)
  ultimately show ?thesis by simp
qed

lemma strlen_terminated: "strlen (line @ [0]) = length (takeWhile (\<lambda>b. b \<noteq> 0) line)"
  by (induction line) (simp_all add: strlen_def)

lemma refill_input_ok: "input_ok s \<Longrightarrow> input_ok (refill tty s)"
  by (auto simp: refill_def input_ok_def Let_def strlen_nth split: option.splits)

lemma refill_frame [simp]:
  "memory (refill tty s) = memory s" "ptr (refill tty s) = ptr s" "pc (refill tty s) = pc s"
  "loop_stack (refill tty s) = loop_stack s"
  by (simp_all add: refill_def Let_def split: option.splits)

lemma refill_empty:
  "input_size (refill tty s) \<le> input_pos (refill tty s) \<Longrightarrow>
   input_size (refill tty s) = 0 \<and> input_pos (refill tty s) = 0"
  by (auto simp: refill_def Let_def split: option.splits if_splits)

lemma op_input_input_ok: "input_ok s \<Longrightarrow> input_ok (op_input config tty s)"
  using refill_input_ok [of s tty] by (auto simp: op_input_def Let_def input_ok_def)

lemma step_input_ok:
  assumes "input_ok s" "step config tty code s = Inr s'"
  shows "input_ok s'"
proof (cases "code ! pc s = CHR '',''")
  case True
  have "input_ok (debug_hook config code s)"
    using assms(1) by (simp add: input_ok_def)
  from op_input_input_ok [OF this, of config tty] True assms(2) show ?thesis
    by (auto simp: step_def dispatch_def input_ok_def)
next
  case False
  with assms(2) have "input_pos s' = input_pos s \<and> input_size s' = input_size s \<and>
      input_buffer s' = input_buffer s"
    by (auto simp: step_def dispatch_def op_right_def op_left_def op_inc_def op_dec_def
        op_output_def op_loop_start_def op_loop_end_def split: if_splits sum.splits)
  with assms(1) show ?thesis by (simp add: input_ok_def)
qed

lemma reachable_input_ok:
  assumes "steps config tty code k (init_state config h) = Some s"
  shows "input_ok s"
proof (rule steps_invariant [where P = input_ok, OF _ _ assms])
  show "input_ok (init_state config h)" by (simp add: init_state_def input_ok_def)
qed (rule step_input_ok)

text \<open>What \<open>,\<close> does to the tape: a byte from the buffer, never NUL, or the EOF policy.\<close>

lemma op_input_cases:
  assumes "input_ok s"
  shows "(\<exists>b. b \<noteq> 0 \<and> memory (op_input config tty s) = (memory s)[ptr s := b]) \<or>
    memory (op_input config tty s) =
      (if eof_behavior config then (memory s)[ptr s := 0] else memory s) \<and>
    input_size (op_input config tty s) = 0 \<and> input_pos (op_input config tty s) = 0"
proof (cases "input_pos (refill tty s) < input_size (refill tty s)")
  case True
  from refill_input_ok [OF assms, of tty] True
  have "input_buffer (refill tty s) ! input_pos (refill tty s) \<noteq> 0"
    by (simp add: input_ok_def)
  with True show ?thesis by (auto simp: op_input_def Let_def)
next
  case False
  then have "input_size (refill tty s) = 0 \<and> input_pos (refill tty s) = 0"
    using refill_empty [of tty s] by simp
  with False show ?thesis by (simp add: op_input_def Let_def)
qed

lemma op_input_frame [simp]:
  "ptr (op_input config tty s) = ptr s" "pc (op_input config tty s) = pc s"
  "loop_stack (op_input config tty s) = loop_stack s"
  by (simp_all add: op_input_def Let_def)

lemma step_input:
  assumes "code ! pc s = CHR '',''"
  shows "step config tty code s =
    Inr ((op_input config tty (debug_hook config code s))\<lparr>pc := pc s + 1\<rparr>)"
  using assms by (simp add: step_def dispatch_def)

lemma refill_nul_first:
  assumes "input_size s \<le> input_pos s" "stdin s = 0 # rest"
  shows "input_size (refill tty s) = 0 \<and> input_pos (refill tty s) = 0 \<and>
    stdin (refill tty s) = drop (length (read_line (INPUT_BUFFER_SIZE - 1) (0 # rest))) (0 # rest)"
  using assms by (simp add: refill_def input_defs Let_def)

lemma refill_size:
  assumes "input_size s \<le> input_pos s" "stdin s \<noteq> []"
  shows "input_size (refill tty s) =
      length (takeWhile (\<lambda>b. b \<noteq> 0) (read_line (INPUT_BUFFER_SIZE - 1) (stdin s))) \<and>
    input_pos (refill tty s) = 0 \<and>
    stdin (refill tty s) = drop (length (read_line (INPUT_BUFFER_SIZE - 1) (stdin s))) (stdin s)"
  using assms by (simp add: refill_def fgets_def Let_def strlen_terminated)

section \<open>The claims\<close>

text \<open>
  C1. The program \<^verbatim>\<open>++++++++[>++++++++<-]>.\<close> under the default configuration
  (no wrapping, no debug output, 30000 cells, cell unchanged at end of input), with
  both allocations succeeding and whatever standard input is: the run terminates, no
  message is written to standard error, and standard output is the single byte 64.
  At the end cell 1 holds 64, every other cell 0, and the loop stack is empty.
\<close>

theorem C1_eight_times_eight:
  "default_config =
     \<lparr>wrap_memory = False, debug_mode = False, memory_size = 30000, eof_behavior = False\<rparr> \<and>
   execute_brainfuck \<lparr>calloc_ok = True, malloc_ok = True, isatty_stdin = t, stdin_bytes = inp\<rparr>
      ''++++++++[>++++++++<-]>.'' default_config =
   Some (Exit None
     \<lparr>memory = (replicate 30000 0)[1 := 64], ptr = 1, pc = 23, loop_stack = [],
      input_buffer = [], input_pos = 0, input_size = 0, stdin = inp,
      stdout = [PutChar 64]\<rparr>)"
  by (simp add: run_defs)

text \<open>
  C2, as stated, fails: after a loop jump the counter is not the jump target. In
  \<^verbatim>\<open>[]\<close> with the cell 0 the matching \<^verbatim>\<open>]\<close> of the \<^verbatim>\<open>[\<close> at index 0 is at
  index 1, and the next turn starts at index 2. In \<^verbatim>\<open>++[-]\<close> the fourth turn of the
  run from the initial state reaches the \<^verbatim>\<open>]\<close> at index 4 with the cell 1; its
  matching \<^verbatim>\<open>[\<close> is at index 2, and the next turn starts at index 3.
\<close>

theorem C2_counterexample:
  "matching_close ''[]'' 0 1 \<and>
   step default_config False ''[]''
     \<lparr>memory = replicate 30000 0, ptr = 0, pc = 0, loop_stack = [],
      input_buffer = [], input_pos = 0, input_size = 0, stdin = [],
      stdout = []\<rparr> =
   Inr \<lparr>memory = replicate 30000 0, ptr = 0, pc = 2, loop_stack = [],
      input_buffer = [], input_pos = 0, input_size = 0, stdin = [],
      stdout = []\<rparr> \<and>
   (2::nat) \<noteq> 1 \<and>
   steps default_config False ''++[-]'' (Suc (Suc (Suc (Suc 0))))
     (init_state default_config \<lparr>calloc_ok = True, malloc_ok = True, isatty_stdin = False, stdin_bytes = []\<rparr>) =
   Some \<lparr>memory = (replicate 30000 0)[0 := 1], ptr = 0, pc = 4, loop_stack = [2],
      input_buffer = [], input_pos = 0, input_size = 0, stdin = [],
      stdout = []\<rparr> \<and>
   matching_close ''++[-]'' 2 4 \<and>
   step default_config False ''++[-]''
     \<lparr>memory = (replicate 30000 0)[0 := 1], ptr = 0, pc = 4, loop_stack = [2],
      input_buffer = [], input_pos = 0, input_size = 0, stdin = [],
      stdout = []\<rparr> =
   Inr \<lparr>memory = (replicate 30000 0)[0 := 1], ptr = 0, pc = 3, loop_stack = [2],
      input_buffer = [], input_pos = 0, input_size = 0, stdin = [],
      stdout = []\<rparr> \<and>
   (3::nat) \<noteq> 2"
proof -
  have "matching_close ''[]'' 0 1"
    using skip_forward_iff [of 1 "''[]''" 0 1]
    by (simp add: matching_close_def skip_forward.simps)
  moreover have "matching_close ''++[-]'' 2 4"
    using skip_forward_iff [of 1 "''++[-]''" 2 4]
    by (simp add: matching_close_def skip_forward.simps)
  ultimately show ?thesis
    by (simp add: engine_defs init_state_def default_config_def DEFAULT_MEMORY_SIZE_def
        MAX_NESTED_LOOPS_def skip_forward.simps)
qed

text \<open>
  C2, amended. After a loop jump the counter at the start of the next turn is the jump
  target plus one, since \<^verbatim>\<open>pc++\<close> follows every \<^verbatim>\<open>break\<close>: a forward skip on \<^verbatim>\<open>[\<close>
  with the cell 0 continues just behind the matching \<^verbatim>\<open>]\<close>; a backward jump on
  \<^verbatim>\<open>]\<close> with the cell non-zero, in any state that a run from the initial state
  reaches, continues just behind the matching \<^verbatim>\<open>[\<close>, which is the top of the loop
  stack. Nothing else of the state changes (but for the debug dump of the instruction).
\<close>

theorem C2_jump_lands_behind_target:
  "(code ! pc s = CHR ''['' \<and> memory s ! ptr s = 0 \<and> matching_close code (pc s) j \<longrightarrow>
      step config tty code s = Inr ((debug_hook config code s)\<lparr>pc := j + 1\<rparr>)) \<and>
   (steps config tty code k (init_state config h) = Some s \<and> pc s < length code \<and>
    code ! pc s = CHR '']'' \<and> memory s ! ptr s \<noteq> 0 \<and> loop_stack s = p # st \<longrightarrow>
      code ! p = CHR ''['' \<and> matching_close code p (pc s) \<and>
      step config tty code s = Inr ((debug_hook config code s)\<lparr>pc := p + 1\<rparr>))"
proof (intro conjI impI)
  assume "code ! pc s = CHR ''['' \<and> memory s ! ptr s = 0 \<and> matching_close code (pc s) j"
  then show "step config tty code s = Inr ((debug_hook config code s)\<lparr>pc := j + 1\<rparr>)"
    using step_skip [of code s j config tty] by simp
next
  assume a: "steps config tty code k (init_state config h) = Some s \<and> pc s < length code \<and>
    code ! pc s = CHR '']'' \<and> memory s ! ptr s \<noteq> 0 \<and> loop_stack s = p # st"
  then have "stack_ok code (pc s) (p # st)"
    using reachable_stack_ok [of config tty code k h s] by simp
  then have o: "open_until code p (pc s)" by simp
  then show "code ! p = CHR ''[''" by (simp add: open_until_def)
  from o a show "matching_close code p (pc s)" by (simp add: open_until_matching)
  from a show "step config tty code s = Inr ((debug_hook config code s)\<lparr>pc := p + 1\<rparr>)"
    by (simp add: step_def dispatch_def op_loop_end_def)
qed

theorem C2_jump_lands_behind_target_witness:
  "matching_close ''[]'' 0 1 \<and>
   step default_config False ''[]''
     \<lparr>memory = replicate 30000 0, ptr = 0, pc = 0, loop_stack = [],
      input_buffer = [], input_pos = 0, input_size = 0, stdin = [],
      stdout = []\<rparr> =
   Inr \<lparr>memory = replicate 30000 0, ptr = 0, pc = 2, loop_stack = [],
      input_buffer = [], input_pos = 0, input_size = 0, stdin = [],
      stdout = []\<rparr> \<and>
   steps default_config False ''++[-]'' (Suc (Suc (Suc (Suc 0))))
     (init_state default_config \<lparr>calloc_ok = True, malloc_ok = True, isatty_stdin = False, stdin_bytes = []\<rparr>) =
   Some \<lparr>memory = (replicate 30000 0)[0 := 1], ptr = 0, pc = 4, loop_stack = [2],
      input_buffer = [], input_pos = 0, input_size = 0, stdin = [],
      stdout = []\<rparr> \<and>
   matching_close ''++[-]'' 2 4 \<and>
   step default_config False ''++[-]''
     \<lparr>memory = (replicate 30000 0)[0 := 1], ptr = 0, pc = 4, loop_stack = [2],
      input_buffer = [], input_pos = 0, input_size = 0, stdin = [],
      stdout = []\<rparr> =
   Inr \<lparr>memory = (replicate 30000 0)[0 := 1], ptr = 0, pc = 3, loop_stack = [2],
      input_buffer = [], input_pos = 0, input_size = 0, stdin = [],
      stdout = []\<rparr>"
proof -
  let ?s0 = "\<lparr>memory = replicate 30000 0, ptr = 0, pc = 0, loop_stack = [],
      input_buffer = [], input_pos = 0, input_size = 0, stdin = [],
      stdout = []\<rparr> :: state"
  let ?s1 = "\<lparr>memory = (replicate 30000 0)[0 := 1], ptr = 0, pc = 4, loop_stack = [2],
      input_buffer = [], input_pos = 0, input_size = 0, stdin = [],
      stdout = []\<rparr> :: state"
  let ?h = "\<lparr>calloc_ok = True, malloc_ok = True, isatty_stdin = False, stdin_bytes = []\<rparr>"
  have m: "matching_close ''[]'' 0 1"
    using skip_forward_iff [of 1 "''[]''" 0 1]
    by (simp add: matching_close_def skip_forward.simps)
  have r: "steps default_config False ''++[-]'' (Suc (Suc (Suc (Suc 0))))
      (init_state default_config ?h) = Some ?s1"
    by (simp add: engine_defs init_state_def default_config_def DEFAULT_MEMORY_SIZE_def
        MAX_NESTED_LOOPS_def)
  show ?thesis
    using m r
      C2_jump_lands_behind_target [of "''[]''" ?s0 1 default_config False]
      C2_jump_lands_behind_target [of "''++[-]''" ?s1 _ default_config False
        "Suc (Suc (Suc (Suc 0)))" ?h 2 "[]"]
    by (simp add: debug_hook_def default_config_def)
qed

text \<open>
  C3. When \<^verbatim>\<open>[\<close> is executed with the current cell 0 and has a matching \<^verbatim>\<open>]\<close> at
  index \<open>j\<close> (nested counting from level 1), that one turn of the main loop moves the
  counter to \<open>j + 1\<close>, behind the whole loop body, and changes nothing else (but for
  the debug dump of the \<^verbatim>\<open>[\<close> itself), and the run goes on from there: no
  instruction of the body is executed. Running
  \<^verbatim>\<open>[[-]]\<close> from any state with counter 0 and current cell 0 ends after that one
  turn with tape, pointer, loop stack and input unchanged and no program output; under
  the default configuration the run from the initial state ends without a message.
\<close>

theorem C3_forward_skip:
  "(code ! pc s = CHR ''['' \<and> memory s ! ptr s = 0 \<and> matching_close code (pc s) j \<longrightarrow>
      pc s < j \<and> j < length code \<and>
      step config tty code s = Inr ((debug_hook config code s)\<lparr>pc := j + 1\<rparr>) \<and>
      run config tty code s = run config tty code ((debug_hook config code s)\<lparr>pc := j + 1\<rparr>)) \<and>
   (pc s0 = 0 \<and> memory s0 ! ptr s0 = 0 \<longrightarrow>
      run config tty ''[[-]]'' s0 = Some (Inr ((debug_hook config ''[[-]]'' s0)\<lparr>pc := 5\<rparr>))) \<and>
   execute_brainfuck \<lparr>calloc_ok = True, malloc_ok = True, isatty_stdin = t, stdin_bytes = inp\<rparr>
      ''[[-]]'' default_config =
   Some (Exit None
     \<lparr>memory = replicate 30000 0, ptr = 0, pc = 5, loop_stack = [],
      input_buffer = [], input_pos = 0, input_size = 0, stdin = inp, stdout = []\<rparr>)"
proof (intro conjI impI)
  assume a: "code ! pc s = CHR ''['' \<and> memory s ! ptr s = 0 \<and> matching_close code (pc s) j"
  then show "pc s < j" "j < length code"
    using matching_close_bounds [of code "pc s" j] by simp_all
  then have lt: "pc s < length code" by simp
  from a show st: "step config tty code s = Inr ((debug_hook config code s)\<lparr>pc := j + 1\<rparr>)"
    using step_skip [of code s j config tty] by simp
  show "run config tty code s = run config tty code ((debug_hook config code s)\<lparr>pc := j + 1\<rparr>)"
    using lt st by (rule run_Inr)
next
  assume a: "pc s0 = 0 \<and> memory s0 ! ptr s0 = 0"
  have m: "matching_close ''[[-]]'' (pc s0) 4"
    using a skip_forward_iff [of 1 "''[[-]]''" 0 4]
    by (simp add: matching_close_def skip_forward.simps)
  have "step config tty ''[[-]]'' s0 = Inr ((debug_hook config ''[[-]]'' s0)\<lparr>pc := 4 + 1\<rparr>)"
    by (rule step_skip) (use a m in simp_all)
  then show "run config tty ''[[-]]'' s0 = Some (Inr ((debug_hook config ''[[-]]'' s0)\<lparr>pc := 5\<rparr>))"
    using a by (simp add: run_Inr run_end)
next
  show "execute_brainfuck \<lparr>calloc_ok = True, malloc_ok = True, isatty_stdin = t, stdin_bytes = inp\<rparr>
      ''[[-]]'' default_config =
   Some (Exit None
     \<lparr>memory = replicate 30000 0, ptr = 0, pc = 5, loop_stack = [],
      input_buffer = [], input_pos = 0, input_size = 0, stdin = inp, stdout = []\<rparr>)"
    by (simp add: run_defs)
qed

theorem C3_forward_skip_witness:
  "matching_close ''[[-]]'' 0 4 \<and>
   step default_config False ''[[-]]''
     \<lparr>memory = [0, 7], ptr = 0, pc = 0, loop_stack = [],
      input_buffer = [], input_pos = 0, input_size = 0, stdin = [],
      stdout = []\<rparr> =
   Inr \<lparr>memory = [0, 7], ptr = 0, pc = 5, loop_stack = [],
      input_buffer = [], input_pos = 0, input_size = 0, stdin = [],
      stdout = []\<rparr> \<and>
   run default_config False ''[[-]]''
     \<lparr>memory = [0, 7], ptr = 0, pc = 0, loop_stack = [],
      input_buffer = [], input_pos = 0, input_size = 0, stdin = [],
      stdout = []\<rparr> =
   Some (Inr \<lparr>memory = [0, 7], ptr = 0, pc = 5, loop_stack = [],
      input_buffer = [], input_pos = 0, input_size = 0, stdin = [],
      stdout = []\<rparr>)"
proof -
  let ?s = "\<lparr>memory = [0, 7], ptr = 0, pc = 0, loop_stack = [],
      input_buffer = [], input_pos = 0, input_size = 0, stdin = [],
      stdout = []\<rparr> :: state"
  have m: "matching_close ''[[-]]'' 0 4"
    using skip_forward_iff [of 1 "''[[-]]''" 0 4]
    by (simp add: matching_close_def skip_forward.simps)
  show ?thesis
    using m C3_forward_skip [of "''[[-]]''" ?s 4 default_config False ?s False "[]"]
    by (simp add: debug_hook_def default_config_def run_end)
qed

text \<open>
  C4. \<^verbatim>\<open>]\<close> with the current cell non-zero and position \<open>p\<close> on top of the loop
  stack continues at \<open>p + 1\<close>, the first instruction of the loop body, and leaves the
  stack as it is; \<^verbatim>\<open>]\<close> with the current cell zero pops the stack and continues
  behind the \<^verbatim>\<open>]\<close>. The program \<^verbatim>\<open>+++[-]\<close> under the default configuration
  terminates without a message, with every cell 0 and an empty loop stack.
\<close>

theorem C4_loop_end:
  "(code ! pc s = CHR '']'' \<and> memory s ! ptr s \<noteq> 0 \<and> loop_stack s = p # st \<longrightarrow>
      step config tty code s = Inr ((debug_hook config code s)\<lparr>pc := p + 1\<rparr>)) \<and>
   (code ! pc s = CHR '']'' \<and> memory s ! ptr s = 0 \<and> loop_stack s = p # st \<longrightarrow>
      step config tty code s =
        Inr ((debug_hook config code s)\<lparr>loop_stack := st, pc := pc s + 1\<rparr>)) \<and>
   execute_brainfuck \<lparr>calloc_ok = True, malloc_ok = True, isatty_stdin = t, stdin_bytes = inp\<rparr>
      ''+++[-]'' default_config =
   Some (Exit None
     \<lparr>memory = replicate 30000 0, ptr = 0, pc = 6, loop_stack = [],
      input_buffer = [], input_pos = 0, input_size = 0, stdin = inp, stdout = []\<rparr>)"
  by (simp add: run_defs)

theorem C4_loop_end_witness:
  "step default_config False ''+++[-]''
     \<lparr>memory = [2], ptr = 0, pc = 5, loop_stack = [3],
      input_buffer = [], input_pos = 0, input_size = 0, stdin = [], stdout = []\<rparr> =
   Inr \<lparr>memory = [2], ptr = 0, pc = 4, loop_stack = [3],
      input_buffer = [], input_pos = 0, input_size = 0, stdin = [], stdout = []\<rparr> \<and>
   step default_config False ''+++[-]''
     \<lparr>memory = [0], ptr = 0, pc = 5, loop_stack = [3],
      input_buffer = [], input_pos = 0, input_size = 0, stdin = [], stdout = []\<rparr> =
   Inr \<lparr>memory = [0], ptr = 0, pc = 6, loop_stack = [],
      input_buffer = [], input_pos = 0, input_size = 0, stdin = [], stdout = []\<rparr>"
  using
    C4_loop_end [of "''+++[-]''" "\<lparr>memory = [2], ptr = 0, pc = 5, loop_stack = [3],
      input_buffer = [], input_pos = 0, input_size = 0, stdin = [], stdout = []\<rparr>" 3 "[]"
      default_config False]
    C4_loop_end [of "''+++[-]''" "\<lparr>memory = [0], ptr = 0, pc = 5, loop_stack = [3],
      input_buffer = [], input_pos = 0, input_size = 0, stdin = [], stdout = []\<rparr>" 3 "[]"
      default_config False]
  by (simp add: debug_hook_def default_config_def)

text \<open>
  C5. With \<open>wrap_memory\<close>, a tape of at least one cell and the pointer on the tape,
  \<^verbatim>\<open>>\<close> and \<^verbatim>\<open><\<close> never fail: \<^verbatim>\<open>>\<close> goes from the last index to 0 and otherwise
  one up, \<^verbatim>\<open><\<close> goes from 0 to the last index and otherwise one down; a program of
  \<open>memory_size\<close> times \<^verbatim>\<open>>\<close>, or of \<open>memory_size\<close> times \<^verbatim>\<open><\<close>, terminates
  with the pointer where it started.
\<close>

theorem C5_wrap_moves:
  "wrap_memory config \<and> 1 \<le> memory_size config \<and> ptr s < memory_size config \<longrightarrow>
     (code ! pc s = CHR ''>'' \<longrightarrow>
        step config tty code s =
          Inr ((debug_hook config code s)
                \<lparr>ptr := (if ptr s = memory_size config - 1 then 0 else ptr s + 1),
                 pc := pc s + 1\<rparr>)) \<and>
     (code ! pc s = CHR ''<'' \<longrightarrow>
        step config tty code s =
          Inr ((debug_hook config code s)
                \<lparr>ptr := (if ptr s = 0 then memory_size config - 1 else ptr s - 1),
                 pc := pc s + 1\<rparr>)) \<and>
     (pc s = 0 \<longrightarrow>
        (\<exists>s'. run config tty (replicate (memory_size config) CHR ''>'') s = Some (Inr s') \<and>
              ptr s' = ptr s) \<and>
        (\<exists>s'. run config tty (replicate (memory_size config) CHR ''<'') s = Some (Inr s') \<and>
              ptr s' = ptr s))"
  using step_right_wrap [of config code s tty] step_left_wrap [of config code s tty]
    run_moves [of config s "CHR ''>''" 1 tty]
    run_moves [of config s "CHR ''<''" "memory_size config - 1" tty]
  by simp

theorem C5_wrap_moves_witness:
  "step \<lparr>wrap_memory = True, debug_mode = False, memory_size = 3, eof_behavior = False\<rparr> False ''><''
     \<lparr>memory = [0, 0, 0], ptr = 2, pc = 0, loop_stack = [],
      input_buffer = [], input_pos = 0, input_size = 0, stdin = [],
      stdout = []\<rparr> =
   Inr \<lparr>memory = [0, 0, 0], ptr = 0, pc = 1, loop_stack = [],
      input_buffer = [], input_pos = 0, input_size = 0, stdin = [],
      stdout = []\<rparr> \<and>
   step \<lparr>wrap_memory = True, debug_mode = False, memory_size = 3, eof_behavior = False\<rparr> False ''><''
     \<lparr>memory = [0, 0, 0], ptr = 0, pc = 1, loop_stack = [],
      input_buffer = [], input_pos = 0, input_size = 0, stdin = [],
      stdout = []\<rparr> =
   Inr \<lparr>memory = [0, 0, 0], ptr = 2, pc = 2, loop_stack = [],
      input_buffer = [], input_pos = 0, input_size = 0, stdin = [],
      stdout = []\<rparr> \<and>
   (\<exists>s'. run \<lparr>wrap_memory = True, debug_mode = False, memory_size = 3, eof_behavior = False\<rparr> False ''>>>''
       \<lparr>memory = [0, 0, 0], ptr = 2, pc = 0, loop_stack = [],
      input_buffer = [], input_pos = 0, input_size = 0, stdin = [],
      stdout = []\<rparr> = Some (Inr s') \<and> ptr s' = 2) \<and>
   (\<exists>s'. run \<lparr>wrap_memory = True, debug_mode = False, memory_size = 3, eof_behavior = False\<rparr> False ''<<<''
       \<lparr>memory = [0, 0, 0], ptr = 2, pc = 0, loop_stack = [],
      input_buffer = [], input_pos = 0, input_size = 0, stdin = [],
      stdout = []\<rparr> = Some (Inr s') \<and> ptr s' = 2)"
proof -
  let ?c = "\<lparr>wrap_memory = True, debug_mode = False, memory_size = 3, eof_behavior = False\<rparr>"
  let ?s = "\<lparr>memory = [0, 0, 0], ptr = 2, pc = 0, loop_stack = [],
      input_buffer = [], input_pos = 0, input_size = 0, stdin = [],
      stdout = []\<rparr> :: state"
  let ?t = "\<lparr>memory = [0, 0, 0], ptr = 0, pc = 1, loop_stack = [],
      input_buffer = [], input_pos = 0, input_size = 0, stdin = [],
      stdout = []\<rparr> :: state"
  have r: "replicate 3 CHR ''>'' = ''>>>''" "replicate 3 CHR ''<'' = ''<<<''"
    by (simp_all add: numeral_3_eq_3)
  show ?thesis
    using C5_wrap_moves [of ?c ?s "''><''" False] C5_wrap_moves [of ?c ?t "''><''" False] r
    by (simp add: debug_hook_def)
qed

text \<open>
  C6. Without \<open>wrap_memory\<close>, \<^verbatim>\<open>>\<close> with the pointer on the last index and \<^verbatim>\<open><\<close>
  with the pointer on index 0 are an error return with the message "out of bounds at
  position \<open>pc\<close>": the run ends in that turn of the loop, so no later instruction is
  executed, and tape and program output are what they were before the instruction.
\<close>

theorem C6_out_of_bounds:
  "\<not> wrap_memory config \<and> pc s < length code \<and>
   (code ! pc s = CHR ''>'' \<and> ptr s = memory_size config - 1 \<or>
    code ! pc s = CHR ''<'' \<and> ptr s = 0) \<longrightarrow>
     step config tty code s = Inl (OutOfBounds (pc s), debug_hook config code s) \<and>
     run config tty code s = Some (Inl (OutOfBounds (pc s), debug_hook config code s)) \<and>
     memory (debug_hook config code s) = memory s \<and>
     program_output (stdout (debug_hook config code s)) = program_output (stdout s)"
proof (intro impI)
  assume a: "\<not> wrap_memory config \<and> pc s < length code \<and>
   (code ! pc s = CHR ''>'' \<and> ptr s = memory_size config - 1 \<or>
    code ! pc s = CHR ''<'' \<and> ptr s = 0)"
  then have st: "step config tty code s = Inl (OutOfBounds (pc s), debug_hook config code s)"
    by (auto simp: step_def dispatch_def op_right_def op_left_def)
  with a have "run config tty code s = Some (Inl (OutOfBounds (pc s), debug_hook config code s))"
    by (simp add: run_Inl)
  with st show "step config tty code s = Inl (OutOfBounds (pc s), debug_hook config code s) \<and>
     run config tty code s = Some (Inl (OutOfBounds (pc s), debug_hook config code s)) \<and>
     memory (debug_hook config code s) = memory s \<and>
     program_output (stdout (debug_hook config code s)) = program_output (stdout s)"
    by simp
qed

theorem C6_out_of_bounds_witness:
  "run \<lparr>wrap_memory = False, debug_mode = False, memory_size = 1, eof_behavior = False\<rparr> False ''+.>.+''
     \<lparr>memory = [1], ptr = 0, pc = 2, loop_stack = [],
      input_buffer = [], input_pos = 0, input_size = 0, stdin = [],
      stdout = [PutChar 1]\<rparr> =
   Some (Inl (OutOfBounds 2,
     \<lparr>memory = [1], ptr = 0, pc = 2, loop_stack = [],
      input_buffer = [], input_pos = 0, input_size = 0, stdin = [],
      stdout = [PutChar 1]\<rparr>)) \<and>
   run \<lparr>wrap_memory = False, debug_mode = False, memory_size = 1, eof_behavior = False\<rparr> False ''<+''
     \<lparr>memory = [0], ptr = 0, pc = 0, loop_stack = [],
      input_buffer = [], input_pos = 0, input_size = 0, stdin = [],
      stdout = []\<rparr> =
   Some (Inl (OutOfBounds 0,
     \<lparr>memory = [0], ptr = 0, pc = 0, loop_stack = [],
      input_buffer = [], input_pos = 0, input_size = 0, stdin = [],
      stdout = []\<rparr>)) \<and>
   execute_brainfuck \<lparr>calloc_ok = True, malloc_ok = True, isatty_stdin = False, stdin_bytes = []\<rparr> ''+.>.+''
     \<lparr>wrap_memory = False, debug_mode = False, memory_size = 1, eof_behavior = False\<rparr> =
   Some (Halt (OutOfBounds 2)
     \<lparr>memory = [1], ptr = 0, pc = 2, loop_stack = [],
      input_buffer = [], input_pos = 0, input_size = 0, stdin = [],
      stdout = [PutChar 1]\<rparr>)"
proof -
  let ?c = "\<lparr>wrap_memory = False, debug_mode = False, memory_size = 1, eof_behavior = False\<rparr>"
  let ?s = "\<lparr>memory = [1], ptr = 0, pc = 2, loop_stack = [],
      input_buffer = [], input_pos = 0, input_size = 0, stdin = [],
      stdout = [PutChar 1]\<rparr> :: state"
  let ?t = "\<lparr>memory = [0], ptr = 0, pc = 0, loop_stack = [],
      input_buffer = [], input_pos = 0, input_size = 0, stdin = [],
      stdout = []\<rparr> :: state"
  have e: "execute_brainfuck \<lparr>calloc_ok = True, malloc_ok = True, isatty_stdin = False, stdin_bytes = []\<rparr> ''+.>.+'' ?c =
      Some (Halt (OutOfBounds 2) ?s)"
    by (simp add: run.simps engine_defs init_state_def execute_brainfuck_def)
  show ?thesis
    using C6_out_of_bounds [of ?c ?s "''+.>.+''" False]
      C6_out_of_bounds [of ?c ?t "''<+''" False] e
    by (simp add: debug_hook_def)
qed

text \<open>
  C7. With the pointer on the tape, \<^verbatim>\<open>+\<close> replaces the value \<open>v\<close> of the current
  cell by \<open>(v + 1) mod 256\<close> and \<^verbatim>\<open>-\<close> by \<open>(v - 1) mod 256\<close>; both always succeed.
  A program of \<open>n\<close> times \<^verbatim>\<open>+\<close> terminates with \<open>(v + n) mod 256\<close> in the cell: from 0,
  255 of them give 255 and 256 of them give 0.
\<close>

theorem C7_cell_arithmetic:
  "ptr s < length (memory s) \<longrightarrow>
     (code ! pc s = CHR ''+'' \<longrightarrow>
        step config tty code s =
          Inr ((debug_hook config code s)
                \<lparr>memory := (memory s)[ptr s := memory s ! ptr s + 1], pc := pc s + 1\<rparr>) \<and>
        (memory s)[ptr s := memory s ! ptr s + 1] ! ptr s = memory s ! ptr s + 1 \<and>
        unat (memory s ! ptr s + 1) = (unat (memory s ! ptr s) + 1) mod 256) \<and>
     (code ! pc s = CHR ''-'' \<longrightarrow>
        step config tty code s =
          Inr ((debug_hook config code s)
                \<lparr>memory := (memory s)[ptr s := memory s ! ptr s - 1], pc := pc s + 1\<rparr>) \<and>
        (memory s)[ptr s := memory s ! ptr s - 1] ! ptr s = memory s ! ptr s - 1 \<and>
        uint (memory s ! ptr s - 1) = (uint (memory s ! ptr s) - 1) mod 256) \<and>
     (pc s = 0 \<longrightarrow>
        (\<exists>s'. run config tty (replicate n CHR ''+'') s = Some (Inr s') \<and> ptr s' = ptr s \<and>
              unat (memory s' ! ptr s') = (unat (memory s ! ptr s) + n) mod 256)) \<and>
     (pc s = 0 \<and> memory s ! ptr s = 0 \<longrightarrow>
        (\<exists>s'. run config tty (replicate 255 CHR ''+'') s = Some (Inr s') \<and>
              memory s' ! ptr s' = 255) \<and>
        (\<exists>s'. run config tty (replicate 256 CHR ''+'') s = Some (Inr s') \<and>
              memory s' ! ptr s' = 0))"
proof (intro impI conjI)
  assume "code ! pc s = CHR ''+''"
  then show "step config tty code s =
          Inr ((debug_hook config code s)
                \<lparr>memory := (memory s)[ptr s := memory s ! ptr s + 1], pc := pc s + 1\<rparr>)"
    by (rule step_inc)
next
  show "unat (memory s ! ptr s + 1) = (unat (memory s ! ptr s) + 1) mod 256"
    by (simp add: unat_word_ariths)
next
  assume "ptr s < length (memory s)"
  then show "(memory s)[ptr s := memory s ! ptr s + 1] ! ptr s = memory s ! ptr s + 1"
    "(memory s)[ptr s := memory s ! ptr s - 1] ! ptr s = memory s ! ptr s - 1"
    by simp_all
next
  assume "code ! pc s = CHR ''-''"
  then show "step config tty code s =
          Inr ((debug_hook config code s)
                \<lparr>memory := (memory s)[ptr s := memory s ! ptr s - 1], pc := pc s + 1\<rparr>)"
    by (rule step_dec)
next
  show "uint (memory s ! ptr s - 1) = (uint (memory s ! ptr s) - 1) mod 256"
    by (simp add: uint_word_ariths)
next
  assume a: "ptr s < length (memory s)" "pc s = 0"
  from run_incs [OF a, of config tty n] obtain s' where
    s': "run config tty (replicate n CHR ''+'') s = Some (Inr s')" "ptr s' = ptr s"
      "memory s' ! ptr s' = memory s ! ptr s + of_nat n" by blast
  have "unat (memory s ! ptr s + of_nat n) = (unat (memory s ! ptr s) + n) mod 256"
    by (simp add: unat_word_ariths unat_of_nat mod_add_right_eq)
  with s' show "\<exists>s'. run config tty (replicate n CHR ''+'') s = Some (Inr s') \<and> ptr s' = ptr s \<and>
              unat (memory s' ! ptr s') = (unat (memory s ! ptr s) + n) mod 256"
    by auto
next
  assume a: "ptr s < length (memory s)" "pc s = 0 \<and> memory s ! ptr s = 0"
  then show "\<exists>s'. run config tty (replicate 255 CHR ''+'') s = Some (Inr s') \<and>
              memory s' ! ptr s' = 255"
    using run_incs [of s config tty 255] by auto
  from a show "\<exists>s'. run config tty (replicate 256 CHR ''+'') s = Some (Inr s') \<and>
              memory s' ! ptr s' = 0"
    using run_incs [of s config tty 256] by auto
qed

theorem C7_cell_arithmetic_witness:
  "step default_config False ''+-''
     \<lparr>memory = [255], ptr = 0, pc = 0, loop_stack = [],
      input_buffer = [], input_pos = 0, input_size = 0, stdin = [],
      stdout = []\<rparr> =
   Inr \<lparr>memory = [0], ptr = 0, pc = 1, loop_stack = [],
      input_buffer = [], input_pos = 0, input_size = 0, stdin = [],
      stdout = []\<rparr> \<and>
   step default_config False ''+-''
     \<lparr>memory = [0], ptr = 0, pc = 1, loop_stack = [],
      input_buffer = [], input_pos = 0, input_size = 0, stdin = [],
      stdout = []\<rparr> =
   Inr \<lparr>memory = [255], ptr = 0, pc = 2, loop_stack = [],
      input_buffer = [], input_pos = 0, input_size = 0, stdin = [],
      stdout = []\<rparr> \<and>
   (\<exists>s'. run default_config False (replicate 255 CHR ''+'')
       \<lparr>memory = [0], ptr = 0, pc = 0, loop_stack = [],
      input_buffer = [], input_pos = 0, input_size = 0, stdin = [],
      stdout = []\<rparr> = Some (Inr s') \<and> memory s' ! ptr s' = 255) \<and>
   (\<exists>s'. run default_config False (replicate 256 CHR ''+'')
       \<lparr>memory = [0], ptr = 0, pc = 0, loop_stack = [],
      input_buffer = [], input_pos = 0, input_size = 0, stdin = [],
      stdout = []\<rparr> = Some (Inr s') \<and> memory s' ! ptr s' = 0)"
proof -
  let ?s = "\<lparr>memory = [255], ptr = 0, pc = 0, loop_stack = [],
      input_buffer = [], input_pos = 0, input_size = 0, stdin = [],
      stdout = []\<rparr> :: state"
  let ?t = "\<lparr>memory = [0], ptr = 0, pc = 1, loop_stack = [],
      input_buffer = [], input_pos = 0, input_size = 0, stdin = [],
      stdout = []\<rparr> :: state"
  let ?z = "\<lparr>memory = [0], ptr = 0, pc = 0, loop_stack = [],
      input_buffer = [], input_pos = 0, input_size = 0, stdin = [],
      stdout = []\<rparr> :: state"
  show ?thesis
    using C7_cell_arithmetic [of ?s "''+-''" default_config False 0]
      C7_cell_arithmetic [of ?t "''+-''" default_config False 0]
      C7_cell_arithmetic [of ?z "''+-''" default_config False 0]
    by (simp add: debug_hook_def default_config_def)
qed

text \<open>
  C8. \<^verbatim>\<open>,\<close> with the buffer used up and standard input at its end is not an error:
  the turn succeeds, the current cell becomes 0 if \<open>eof_behavior\<close> is set and keeps its
  value otherwise, and nothing is written but the prompt of an interactive refill. The
  program \<^verbatim>\<open>,.,.\<close> on the input byte 65 followed by the end of input writes 65 and
  65 under the default configuration, and 65 and 0 with \<open>eof_behavior\<close> set.
\<close>

theorem C8_input_at_eof:
  "(code ! pc s = CHR '','' \<and> input_size s \<le> input_pos s \<and> stdin s = [] \<longrightarrow>
      step config tty code s =
        Inr ((debug_hook config code s)
          \<lparr>memory := (if eof_behavior config then (memory s)[ptr s := 0] else memory s),
           input_pos := 0, input_size := 0,
           stdout := stdout (debug_hook config code s) @ (if tty then [Prompt] else []),
           pc := pc s + 1\<rparr>)) \<and>
   execute_brainfuck \<lparr>calloc_ok = True, malloc_ok = True, isatty_stdin = False, stdin_bytes = [65]\<rparr>
     '',.,.'' default_config =
   Some (Exit None
     \<lparr>memory = (replicate 30000 0)[0 := 65], ptr = 0, pc = 4, loop_stack = [],
      input_buffer = [65, 0], input_pos = 0, input_size = 0, stdin = [],
      stdout = [PutChar 65, PutChar 65]\<rparr>) \<and>
   execute_brainfuck \<lparr>calloc_ok = True, malloc_ok = True, isatty_stdin = False, stdin_bytes = [65]\<rparr>
     '',.,.'' (default_config\<lparr>eof_behavior := True\<rparr>) =
   Some (Exit None
     \<lparr>memory = replicate 30000 0, ptr = 0, pc = 4, loop_stack = [],
      input_buffer = [65, 0], input_pos = 0, input_size = 0, stdin = [],
      stdout = [PutChar 65, PutChar 0]\<rparr>) \<and>
   execute_brainfuck \<lparr>calloc_ok = True, malloc_ok = True, isatty_stdin = True, stdin_bytes = [65]\<rparr>
     '',.,.'' default_config =
   Some (Exit None
     \<lparr>memory = (replicate 30000 0)[0 := 65], ptr = 0, pc = 4, loop_stack = [],
      input_buffer = [65, 0], input_pos = 0, input_size = 0, stdin = [],
      stdout = [Prompt, PutChar 65, Prompt, PutChar 65]\<rparr>) \<and>
   execute_brainfuck \<lparr>calloc_ok = True, malloc_ok = True, isatty_stdin = True, stdin_bytes = [65]\<rparr>
     '',.,.'' (default_config\<lparr>eof_behavior := True\<rparr>) =
   Some (Exit None
     \<lparr>memory = replicate 30000 0, ptr = 0, pc = 4, loop_stack = [],
      input_buffer = [65, 0], input_pos = 0, input_size = 0, stdin = [],
      stdout = [Prompt, PutChar 65, Prompt, PutChar 0]\<rparr>)"
proof (intro conjI impI)
  assume "code ! pc s = CHR '','' \<and> input_size s \<le> input_pos s \<and> stdin s = []"
  then show "step config tty code s =
        Inr ((debug_hook config code s)
          \<lparr>memory := (if eof_behavior config then (memory s)[ptr s := 0] else memory s),
           input_pos := 0, input_size := 0,
           stdout := stdout (debug_hook config code s) @ (if tty then [Prompt] else []),
           pc := pc s + 1\<rparr>)"
    by (simp add: step_input_eof)
qed (simp_all add: run_defs input_defs)

theorem C8_input_at_eof_witness:
  "step (default_config\<lparr>eof_behavior := True\<rparr>) False '',.,.''
     \<lparr>memory = [65], ptr = 0, pc = 2, loop_stack = [],
      input_buffer = [65, 0], input_pos = 1, input_size = 1, stdin = [],
      stdout = [PutChar 65]\<rparr> =
   Inr \<lparr>memory = [0], ptr = 0, pc = 3, loop_stack = [],
      input_buffer = [65, 0], input_pos = 0, input_size = 0, stdin = [],
      stdout = [PutChar 65]\<rparr> \<and>
   step default_config False '',.,.''
     \<lparr>memory = [65], ptr = 0, pc = 2, loop_stack = [],
      input_buffer = [65, 0], input_pos = 1, input_size = 1, stdin = [],
      stdout = [PutChar 65]\<rparr> =
   Inr \<lparr>memory = [65], ptr = 0, pc = 3, loop_stack = [],
      input_buffer = [65, 0], input_pos = 0, input_size = 0, stdin = [],
      stdout = [PutChar 65]\<rparr>"
proof -
  let ?s = "\<lparr>memory = [65], ptr = 0, pc = 2, loop_stack = [],
      input_buffer = [65, 0], input_pos = 1, input_size = 1, stdin = [],
      stdout = [PutChar 65]\<rparr> :: state"
  show ?thesis
    using C8_input_at_eof [of "'',.,.''" ?s "default_config\<lparr>eof_behavior := True\<rparr>" False]
      C8_input_at_eof [of "'',.,.''" ?s default_config False]
    by (simp add: debug_hook_def default_config_def)
qed

text \<open>
  C9. A \<^verbatim>\<open>[\<close> executed with the current cell 0 whose scan reaches the end of the
  code with the nesting level never back at 0 is an error return with the message
  "unmatched \<^verbatim>\<open>[\<close>" (at the position on top of the loop stack, or at the length of
  the code when the stack is empty); a \<^verbatim>\<open>]\<close> executed with an empty loop stack is an
  error return with the message "unmatched \<^verbatim>\<open>]\<close> at position \<open>pc\<close>". Both end the
  run in that turn. The program \<^verbatim>\<open>[+\<close> ends with the first message, the program
  \<^verbatim>\<open>+]\<close> with the second, at position 1.
\<close>

theorem C9_unmatched:
  "(pc s < length code \<and> code ! pc s = CHR ''['' \<and> memory s ! ptr s = 0 \<and>
    (\<forall>j \<in> {pc s + 1 ..< length code}. nest_level_at 1 code (pc s) j \<noteq> 0) \<longrightarrow>
      step config tty code s =
        Inl (UnmatchedOpen (if length (loop_stack s) > 0 then hd (loop_stack s) else length code),
             (debug_hook config code s)\<lparr>pc := length code\<rparr>) \<and>
      run config tty code s =
        Some (Inl (UnmatchedOpen
                     (if length (loop_stack s) > 0 then hd (loop_stack s) else length code),
                   (debug_hook config code s)\<lparr>pc := length code\<rparr>))) \<and>
   (pc s < length code \<and> code ! pc s = CHR '']'' \<and> loop_stack s = [] \<longrightarrow>
      step config tty code s = Inl (UnmatchedClose (pc s), debug_hook config code s) \<and>
      run config tty code s = Some (Inl (UnmatchedClose (pc s), debug_hook config code s))) \<and>
   execute_brainfuck \<lparr>calloc_ok = True, malloc_ok = True, isatty_stdin = t, stdin_bytes = inp\<rparr>
      ''[+'' default_config =
   Some (Halt (UnmatchedOpen 2)
     \<lparr>memory = replicate 30000 0, ptr = 0, pc = 2, loop_stack = [],
      input_buffer = [], input_pos = 0, input_size = 0, stdin = inp, stdout = []\<rparr>) \<and>
   execute_brainfuck \<lparr>calloc_ok = True, malloc_ok = True, isatty_stdin = t, stdin_bytes = inp\<rparr>
      ''+]'' default_config =
   Some (Halt (UnmatchedClose 1)
     \<lparr>memory = (replicate 30000 0)[0 := 1], ptr = 0, pc = 1, loop_stack = [],
      input_buffer = [], input_pos = 0, input_size = 0, stdin = inp, stdout = []\<rparr>)"
proof -
  have open_step: "step config tty code s =
        Inl (UnmatchedOpen (if length (loop_stack s) > 0 then hd (loop_stack s) else length code),
             (debug_hook config code s)\<lparr>pc := length code\<rparr>)"
    if "pc s < length code" "code ! pc s = CHR ''[''" "memory s ! ptr s = 0"
      "\<forall>j \<in> {pc s + 1 ..< length code}. nest_level_at 1 code (pc s) j \<noteq> 0"
  proof -
    have "skip_forward code (pc s) (Suc 0) = Inl (length code)"
      using level_never_zero_unmatched [OF that(4)] that(1) by (rule skip_forward_unmatched)
    then show ?thesis using that(2,3)
      by (simp add: step_def dispatch_def op_loop_start_def)
  qed
  have close_step: "step config tty code s = Inl (UnmatchedClose (pc s), debug_hook config code s)"
    if "code ! pc s = CHR '']''" "loop_stack s = []"
    using that by (simp add: step_def dispatch_def op_loop_end_def)
  show ?thesis
    using open_step close_step by (simp add: run_Inl) (simp add: run_defs)
qed

theorem C9_unmatched_witness:
  "run default_config False ''[+''
     \<lparr>memory = [0], ptr = 0, pc = 0, loop_stack = [],
      input_buffer = [], input_pos = 0, input_size = 0, stdin = [],
      stdout = []\<rparr> =
   Some (Inl (UnmatchedOpen 2,
     \<lparr>memory = [0], ptr = 0, pc = 2, loop_stack = [],
      input_buffer = [], input_pos = 0, input_size = 0, stdin = [],
      stdout = []\<rparr>)) \<and>
   run default_config False ''+]''
     \<lparr>memory = [1], ptr = 0, pc = 1, loop_stack = [],
      input_buffer = [], input_pos = 0, input_size = 0, stdin = [],
      stdout = []\<rparr> =
   Some (Inl (UnmatchedClose 1,
     \<lparr>memory = [1], ptr = 0, pc = 1, loop_stack = [],
      input_buffer = [], input_pos = 0, input_size = 0, stdin = [],
      stdout = []\<rparr>))"
proof -
  let ?s = "\<lparr>memory = [0], ptr = 0, pc = 0, loop_stack = [],
      input_buffer = [], input_pos = 0, input_size = 0, stdin = [],
      stdout = []\<rparr> :: state"
  let ?t = "\<lparr>memory = [1], ptr = 0, pc = 1, loop_stack = [],
      input_buffer = [], input_pos = 0, input_size = 0, stdin = [],
      stdout = []\<rparr> :: state"
  have "{pc ?s + 1 ..< length ''[+''} = {1}" by auto
  then have n: "\<forall>j \<in> {pc ?s + 1 ..< length ''[+''}. nest_level_at 1 ''[+'' (pc ?s) j \<noteq> 0"
    by (simp add: nest_level_at_def bracket_value_def)
  show ?thesis
    using n C9_unmatched [of ?s "''[+''" default_config False]
      C9_unmatched [of ?t "''+]''" default_config False]
    by (simp add: debug_hook_def default_config_def)
qed

text \<open>
  C10. In every state that a run from the initial state reaches, \<^verbatim>\<open>,\<close> either stores
  a byte different from 0 in the current cell, or applies the EOF policy (cell set to 0
  if \<open>eof_behavior\<close>, unchanged otherwise) and leaves the buffer empty: a NUL of the
  input is never stored. A refill sets the filled size to the number of bytes of the
  chunk read by \<^verbatim>\<open>fgets\<close> that precede its first NUL, while the whole chunk is taken
  from standard input; so when the chunk starts with NUL, \<^verbatim>\<open>,\<close> applies the EOF
  policy although input is left, and the bytes of a chunk behind a NUL are never
  delivered. With the input bytes 0 66 10 67 10 the program \<^verbatim>\<open>+,.,.\<close> writes 1 and 67:
  the first \<^verbatim>\<open>,\<close> leaves the cell at 1 and drops the line holding 66, the second
  reads 67 from the next line.
\<close>

theorem C10_no_nul_from_input:
  "(steps config tty code k (init_state config h) = Some s \<and> code ! pc s = CHR '','' \<longrightarrow>
      (\<exists>s'. step config tty code s = Inr s' \<and>
         ((\<exists>b. b \<noteq> 0 \<and> memory s' = (memory s)[ptr s := b]) \<or>
          memory s' = (if eof_behavior config then (memory s)[ptr s := 0] else memory s) \<and>
          input_size s' = 0 \<and> input_pos s' = 0))) \<and>
   (input_size s \<le> input_pos s \<and> stdin s \<noteq> [] \<longrightarrow>
      input_size (refill tty s) =
        length (takeWhile (\<lambda>b. b \<noteq> 0) (read_line (INPUT_BUFFER_SIZE - 1) (stdin s))) \<and>
      input_pos (refill tty s) = 0 \<and>
      stdin (refill tty s) =
        drop (length (read_line (INPUT_BUFFER_SIZE - 1) (stdin s))) (stdin s)) \<and>
   (code ! pc s = CHR '','' \<and> input_size s \<le> input_pos s \<and> stdin s = 0 # rest \<longrightarrow>
      (\<exists>s'. step config tty code s = Inr s' \<and>
         memory s' = (if eof_behavior config then (memory s)[ptr s := 0] else memory s) \<and>
         input_size s' = 0 \<and> input_pos s' = 0 \<and>
         stdin s' = drop (length (read_line (INPUT_BUFFER_SIZE - 1) (0 # rest))) (0 # rest))) \<and>
   execute_brainfuck \<lparr>calloc_ok = True, malloc_ok = True, isatty_stdin = False, stdin_bytes = [0, 66, 10, 67, 10]\<rparr>
     ''+,.,.'' default_config =
   Some (Exit None
     \<lparr>memory = (replicate 30000 0)[0 := 67], ptr = 0, pc = 5, loop_stack = [],
      input_buffer = [67, 10, 0], input_pos = 1, input_size = 2, stdin = [],
      stdout = [PutChar 1, PutChar 67]\<rparr>)"
proof (intro conjI impI)
  assume a: "steps config tty code k (init_state config h) = Some s \<and> code ! pc s = CHR '',''"
  let ?d = "debug_hook config code s"
  from a have "input_ok s"
    using reachable_input_ok [of config tty code k h s] by simp
  then have "input_ok ?d" by (simp add: input_ok_def)
  from op_input_cases [OF this, of config tty] step_input [of code s config tty] a
  show "\<exists>s'. step config tty code s = Inr s' \<and>
         ((\<exists>b. b \<noteq> 0 \<and> memory s' = (memory s)[ptr s := b]) \<or>
          memory s' = (if eof_behavior config then (memory s)[ptr s := 0] else memory s) \<and>
          input_size s' = 0 \<and> input_pos s' = 0)"
    by auto
next
  assume a: "input_size s \<le> input_pos s \<and> stdin s \<noteq> []"
  then show "input_size (refill tty s) =
        length (takeWhile (\<lambda>b. b \<noteq> 0) (read_line (INPUT_BUFFER_SIZE - 1) (stdin s)))"
    "input_pos (refill tty s) = 0"
    "stdin (refill tty s) =
        drop (length (read_line (INPUT_BUFFER_SIZE - 1) (stdin s))) (stdin s)"
    using refill_size [of s tty] by simp_all
next
  assume a: "code ! pc s = CHR '','' \<and> input_size s \<le> input_pos s \<and> stdin s = 0 # rest"
  let ?d = "debug_hook config code s"
  from a have "input_size ?d \<le> input_pos ?d" "stdin ?d = 0 # rest" by simp_all
  from refill_nul_first [OF this, of tty] step_input [of code s config tty] a
  show "\<exists>s'. step config tty code s = Inr s' \<and>
         memory s' = (if eof_behavior config then (memory s)[ptr s := 0] else memory s) \<and>
         input_size s' = 0 \<and> input_pos s' = 0 \<and>
         stdin s' = drop (length (read_line (INPUT_BUFFER_SIZE - 1) (0 # rest))) (0 # rest)"
    by (simp add: op_input_def Let_def)
next
  show "execute_brainfuck \<lparr>calloc_ok = True, malloc_ok = True, isatty_stdin = False, stdin_bytes = [0, 66, 10, 67, 10]\<rparr>
     ''+,.,.'' default_config =
   Some (Exit None
     \<lparr>memory = (replicate 30000 0)[0 := 67], ptr = 0, pc = 5, loop_stack = [],
      input_buffer = [67, 10, 0], input_pos = 1, input_size = 2, stdin = [],
      stdout = [PutChar 1, PutChar 67]\<rparr>)"
    by (simp add: run_defs input_defs)
qed

theorem C10_no_nul_from_input_witness:
  "steps default_config False ''+,.,.'' (Suc 0)
     (init_state default_config \<lparr>calloc_ok = True, malloc_ok = True, isatty_stdin = False, stdin_bytes = [0, 66, 10, 67, 10]\<rparr>) =
   Some \<lparr>memory = (replicate 30000 0)[0 := 1], ptr = 0, pc = 1, loop_stack = [],
      input_buffer = [], input_pos = 0, input_size = 0, stdin = [0, 66, 10, 67, 10],
      stdout = []\<rparr> \<and>
   (\<exists>s'. step default_config False ''+,.,.''
       \<lparr>memory = (replicate 30000 0)[0 := 1], ptr = 0, pc = 1, loop_stack = [],
      input_buffer = [], input_pos = 0, input_size = 0, stdin = [0, 66, 10, 67, 10],
      stdout = []\<rparr> = Inr s' \<and>
      memory s' = (replicate 30000 0)[0 := 1] \<and> input_size s' = 0 \<and> input_pos s' = 0 \<and>
      stdin s' = [67, 10]) \<and>
   input_size (refill False
       \<lparr>memory = (replicate 30000 0)[0 := 1], ptr = 0, pc = 1, loop_stack = [],
      input_buffer = [], input_pos = 0, input_size = 0, stdin = [65, 0, 66, 10, 67, 10],
      stdout = []\<rparr>) = 1 \<and>
   stdin (refill False
       \<lparr>memory = (replicate 30000 0)[0 := 1], ptr = 0, pc = 1, loop_stack = [],
      input_buffer = [], input_pos = 0, input_size = 0, stdin = [65, 0, 66, 10, 67, 10],
      stdout = []\<rparr>) = [67, 10]"
proof -
  let ?h = "\<lparr>calloc_ok = True, malloc_ok = True, isatty_stdin = False, stdin_bytes = [0, 66, 10, 67, 10]\<rparr>"
  let ?s = "\<lparr>memory = (replicate 30000 0)[0 := 1], ptr = 0, pc = 1, loop_stack = [],
      input_buffer = [], input_pos = 0, input_size = 0, stdin = [0, 66, 10, 67, 10],
      stdout = []\<rparr> :: state"
  let ?t = "\<lparr>memory = (replicate 30000 0)[0 := 1], ptr = 0, pc = 1, loop_stack = [],
      input_buffer = [], input_pos = 0, input_size = 0, stdin = [65, 0, 66, 10, 67, 10],
      stdout = []\<rparr> :: state"
  have r: "steps default_config False ''+,.,.'' (Suc 0) (init_state default_config ?h) = Some ?s"
    by (simp add: engine_defs init_state_def default_config_def DEFAULT_MEMORY_SIZE_def)
  show ?thesis
    using r C10_no_nul_from_input [of default_config False "''+,.,.''" "Suc 0" ?h ?s "[66, 10, 67, 10]"]
      C10_no_nul_from_input [of default_config False "''+,.,.''" "Suc 0" ?h ?t "[]"]
    by (simp add: default_config_def INPUT_BUFFER_SIZE_def)
qed

end
